theory Spec2Isabelle
  imports Complex_Main "HOL-Library.Sublist" "HOL-Library.Monad_Syntax"
    "HOL-Library.Char_ord" "HOL-Library.List_Lexorder"
begin

section \<open>Python strings\<close>

text \<open>
  Play texts, file names and player names are Python \<open>str\<close> values. A character of the
  model is a code point from 0 to 255 (Latin-1), which is what the type \<open>char\<close> holds;
  text with a code point above 255 cannot be written in the model. On these characters
  \<open>str.isspace\<close>, \<open>str.strip\<close> and \<open>\s\<close> accept the twelve characters of
  \<open>space_chars\<close> (the separators 0x1C to 0x1F, the next-line character 0x85 and the
  no-break space 0xA0 among them), \<open>\d\<close> accepts the ten ASCII digits, and
  \<open>str.lower\<close> changes the 26 ASCII capitals and the 30 accented capitals 0xC0 to 0xDE
  (the multiplication sign 0xD7 is no letter).
\<close>

definition upper_chars :: string where
  "upper_chars = ''ABCDEFGHIJKLMNOPQRSTUVWXYZ''"

definition lower_chars :: string where
  "lower_chars = ''abcdefghijklmnopqrstuvwxyz''"

definition digit_chars :: string where
  "digit_chars = ''0123456789''"

definition latin_upper :: string where
  "latin_upper = [CHR 0xC0, CHR 0xC1, CHR 0xC2, CHR 0xC3, CHR 0xC4, CHR 0xC5, CHR 0xC6, CHR 0xC7,
     CHR 0xC8, CHR 0xC9, CHR 0xCA, CHR 0xCB, CHR 0xCC, CHR 0xCD, CHR 0xCE, CHR 0xCF,
     CHR 0xD0, CHR 0xD1, CHR 0xD2, CHR 0xD3, CHR 0xD4, CHR 0xD5, CHR 0xD6,
     CHR 0xD8, CHR 0xD9, CHR 0xDA, CHR 0xDB, CHR 0xDC, CHR 0xDD, CHR 0xDE]"

definition latin_lower :: string where
  "latin_lower = [CHR 0xE0, CHR 0xE1, CHR 0xE2, CHR 0xE3, CHR 0xE4, CHR 0xE5, CHR 0xE6, CHR 0xE7,
     CHR 0xE8, CHR 0xE9, CHR 0xEA, CHR 0xEB, CHR 0xEC, CHR 0xED, CHR 0xEE, CHR 0xEF,
     CHR 0xF0, CHR 0xF1, CHR 0xF2, CHR 0xF3, CHR 0xF4, CHR 0xF5, CHR 0xF6,
     CHR 0xF8, CHR 0xF9, CHR 0xFA, CHR 0xFB, CHR 0xFC, CHR 0xFD, CHR 0xFE]"

definition space_chars :: string where
  "space_chars = [CHR 0x09, CHR 0x0A, CHR 0x0B, CHR 0x0C, CHR 0x0D,
     CHR 0x1C, CHR 0x1D, CHR 0x1E, CHR 0x1F, CHR 0x20, CHR 0x85, CHR 0xA0]"

definition is_space :: "char \<Rightarrow> bool" where
  "is_space c = (c \<in> set space_chars)"

definition is_digit :: "char \<Rightarrow> bool" where
  "is_digit c = (c \<in> set digit_chars)"

definition to_lower :: "char \<Rightarrow> char" where
  "to_lower c =
     (case map_of (zip (upper_chars @ latin_upper) (lower_chars @ latin_lower)) c of
        Some l \<Rightarrow> l | None \<Rightarrow> c)"

text \<open>\<open>s.lower()\<close>.\<close>

definition lower :: "string \<Rightarrow> string" where
  "lower s = map to_lower s"

text \<open>\<open>s.strip()\<close>.\<close>

definition strip :: "string \<Rightarrow> string" where
  "strip s = rev (dropWhile is_space (rev (dropWhile is_space s)))"

text \<open>\<open>sub in s\<close> on strings.\<close>

fun contains :: "string \<Rightarrow> string \<Rightarrow> bool" where
  "contains sub [] = (sub = [])"
| "contains sub (c # cs) = (prefix sub (c # cs) \<or> contains sub cs)"

text \<open>\<open>s.split(d)\<close> for a one-character separator: the result is never empty.\<close>

fun split_on :: "char \<Rightarrow> string \<Rightarrow> string list" where
  "split_on d [] = [[]]"
| "split_on d (c # cs) =
     (if c = d then [] # split_on d cs
      else (case split_on d cs of [] \<Rightarrow> [[c]] | h # t \<Rightarrow> (c # h) # t))"

text \<open>\<open>s.replace(' ', '_')\<close>.\<close>

definition replace_char :: "char \<Rightarrow> char \<Rightarrow> string \<Rightarrow> string" where
  "replace_char a b s = map (\<lambda>c. if c = a then b else c) s"

text \<open>
  \<open>s.replace(old, new)\<close> for a non-empty \<open>old\<close>: left to right, occurrences do not
  overlap. The counter is the number of characters of a matched \<open>old\<close> still to skip.
\<close>

fun replace_from :: "string \<Rightarrow> string \<Rightarrow> nat \<Rightarrow> string \<Rightarrow> string" where
  "replace_from old new k [] = []"
| "replace_from old new (Suc k) (c # cs) = replace_from old new k cs"
| "replace_from old new 0 (c # cs) =
     (if prefix old (c # cs) then new @ replace_from old new (length old - 1) cs
      else c # replace_from old new 0 cs)"

definition replace_str :: "string \<Rightarrow> string \<Rightarrow> string \<Rightarrow> string" where
  "replace_str old new s = replace_from old new 0 s"

text \<open>\<open>re.sub(r'\s+', ' ', s)\<close>: every maximal run of whitespace becomes one blank.
  The flag says that the previous character belonged to a run.\<close>

fun squeeze :: "bool \<Rightarrow> string \<Rightarrow> string" where
  "squeeze b [] = []"
| "squeeze b (c # cs) =
     (if is_space c then (if b then squeeze True cs else CHR '' '' # squeeze True cs)
      else c # squeeze False cs)"

definition collapse_ws :: "string \<Rightarrow> string" where
  "collapse_ws s = squeeze False s"

text \<open>Decimal digits: the value of a digit string, and \<open>str(n)\<close> for an integer.\<close>

definition digit_val :: "char \<Rightarrow> nat" where
  "digit_val c = (case map_of (zip digit_chars [0, 1, 2, 3, 4, 5, 6, 7, 8, 9]) c of
     Some n \<Rightarrow> n | None \<Rightarrow> 0)"

definition digits_val :: "string \<Rightarrow> nat" where
  "digits_val s = foldl (\<lambda>acc c. 10 * acc + digit_val c) 0 s"

definition digit_char :: "nat \<Rightarrow> char" where
  "digit_char n = digit_chars ! (n mod 10)"

fun str_nat :: "nat \<Rightarrow> string" where
  "str_nat n = (if n < 10 then [digit_char n] else str_nat (n div 10) @ [digit_char n])"

definition str_int :: "int \<Rightarrow> string" where
  "str_int i = (if i < 0 then CHR ''-'' # str_nat (nat (- i)) else str_nat (nat i))"

text \<open>
  \<open>int(s)\<close> on a string: surrounding whitespace is stripped, one sign is allowed, and
  single underscores may separate digits. The whitespace of \<open>int\<close> is not that of
  \<open>str.strip\<close>: the separators 0x1C to 0x1F are refused. A string with more than 4300
  digits is refused (the interpreter's limit on integer string conversion; underscores and
  the sign do not count). \<open>None\<close> is the \<open>ValueError\<close>.
\<close>

definition int_space_chars :: string where
  "int_space_chars = [CHR 0x09, CHR 0x0A, CHR 0x0B, CHR 0x0C, CHR 0x0D, CHR 0x20, CHR 0x85, CHR 0xA0]"

definition int_strip :: "string \<Rightarrow> string" where
  "int_strip s =
     rev (dropWhile (\<lambda>c. c \<in> set int_space_chars)
       (rev (dropWhile (\<lambda>c. c \<in> set int_space_chars) s)))"

definition max_str_digits :: nat where
  "max_str_digits = 4300"

fun digit_groups_ok :: "bool \<Rightarrow> string \<Rightarrow> bool" where
  "digit_groups_ok after_digit [] = after_digit"
| "digit_groups_ok after_digit (c # cs) =
     (if is_digit c then digit_groups_ok True cs
      else (c = CHR ''_'' \<and> after_digit \<and> cs \<noteq> [] \<and> digit_groups_ok False cs))"

definition int_of_digits :: "string \<Rightarrow> int option" where
  "int_of_digits s =
     (if digit_groups_ok False s \<and> length (filter is_digit s) \<le> max_str_digits
      then Some (int (digits_val (filter is_digit s))) else None)"

definition int_of_str :: "string \<Rightarrow> int option" where
  "int_of_str s =
     (case int_strip s of
        [] \<Rightarrow> None
      | c # cs \<Rightarrow>
          if c = CHR ''-'' then map_option uminus (int_of_digits cs)
          else if c = CHR ''+'' then int_of_digits cs
          else int_of_digits (c # cs))"

section \<open>JSON values\<close>

text \<open>
  What \<open>json.load\<close> returns: \<open>None\<close>, booleans, integers, strings, lists and dicts with
  string keys (in the order of the file; a key occurs once). JSON numbers with a fraction
  are outside the model. An exception raised by an operation is the result \<open>None\<close> of the
  model function (every caller in the source catches \<open>Exception\<close> as one case).
\<close>

datatype json = JNull | JBool bool | JInt int | JStr string | JList "json list"
  | JObj "(string \<times> json) list"

text \<open>Truthiness, as \<open>if x:\<close> and \<open>not x\<close> read a value.\<close>

fun truthy :: "json \<Rightarrow> bool" where
  "truthy JNull = False"
| "truthy (JBool b) = b"
| "truthy (JInt n) = (n \<noteq> 0)"
| "truthy (JStr s) = (s \<noteq> [])"
| "truthy (JList xs) = (xs \<noteq> [])"
| "truthy (JObj kvs) = (kvs \<noteq> [])"

text \<open>\<open>d.get(k, default)\<close>: an \<open>AttributeError\<close> on anything but a dict.\<close>

fun dget :: "json \<Rightarrow> string \<Rightarrow> json \<Rightarrow> json option" where
  "dget (JObj kvs) k d = Some (case map_of kvs k of Some v \<Rightarrow> v | None \<Rightarrow> d)"
| "dget _ k d = None"

text \<open>\<open>d[k] = v\<close> on a dict: an existing key keeps its place, a new key goes last.\<close>

fun dict_set :: "('k \<times> 'v) list \<Rightarrow> 'k \<Rightarrow> 'v \<Rightarrow> ('k \<times> 'v) list" where
  "dict_set [] k v = [(k, v)]"
| "dict_set ((k', v') # kvs) k v =
     (if k' = k then (k', v) # kvs else (k', v') # dict_set kvs k v)"

text \<open>\<open>for x in v\<close>: a list gives its elements, a dict its keys, a string its
  characters; anything else is not iterable (\<open>TypeError\<close>).\<close>

fun py_iter :: "json \<Rightarrow> json list option" where
  "py_iter (JList xs) = Some xs"
| "py_iter (JObj kvs) = Some (map (\<lambda>kv. JStr (fst kv)) kvs)"
| "py_iter (JStr s) = Some (map (\<lambda>c. JStr [c]) s)"
| "py_iter _ = None"

text \<open>A value that must be a string for a string method to exist on it.\<close>

fun as_str :: "json \<Rightarrow> string option" where
  "as_str (JStr s) = Some s"
| "as_str _ = None"

text \<open>\<open>int(v)\<close>.\<close>

fun py_int :: "json \<Rightarrow> int option" where
  "py_int (JInt n) = Some n"
| "py_int (JBool b) = Some (if b then 1 else 0)"
| "py_int (JStr s) = int_of_str s"
| "py_int _ = None"

text \<open>
  Hashable values used as dict keys or set members: lists and dicts are not hashable
  (\<open>TypeError\<close>), and \<open>True\<close> and \<open>1\<close> (\<open>False\<close> and \<open>0\<close>) are the same key.
\<close>

fun hash_key :: "json \<Rightarrow> json option" where
  "hash_key (JList xs) = None"
| "hash_key (JObj kvs) = None"
| "hash_key (JBool b) = Some (JInt (if b then 1 else 0))"
| "hash_key v = Some v"

section \<open>Regular expressions\<close>

text \<open>
  The patterns of the source use literals, character classes, \<open>.\<close>, the greedy
  repetitions \<open>*\<close> and \<open>+\<close> and the lazy \<open>*?\<close> of one character class, one capture
  group, and \<open>^\<close> as first symbol. A pattern is the items before the group, the group's
  items and the items after it. \<open>rx_match\<close> is the backtracking matcher of Python's
  \<open>re\<close> at one start position: it returns, for the first way to match in priority order
  (greedy: longest first; lazy: shortest first), what each item consumed.
\<close>

datatype cls = Lit char | Dot | Space | Digit | OneOf string | NoneOf string

text \<open>Membership in a bracket class; with \<open>re.IGNORECASE\<close> (\<open>ic\<close>) the class is compiled
  to the lower-case forms of its members and the character is lowered before the test.\<close>

definition in_set :: "bool \<Rightarrow> string \<Rightarrow> char \<Rightarrow> bool" where
  "in_set ic cs c = (if ic then to_lower c \<in> set (map to_lower cs) else c \<in> set cs)"

fun accepts :: "bool \<Rightarrow> cls \<Rightarrow> char \<Rightarrow> bool" where
  "accepts ic (Lit a) c = (if ic then to_lower a = to_lower c else a = c)"
| "accepts ic Dot c = (c \<noteq> CHR 0x0A)"
| "accepts ic Space c = is_space c"
| "accepts ic Digit c = is_digit c"
| "accepts ic (OneOf cs) c = in_set ic cs c"
| "accepts ic (NoneOf cs) c = (\<not> in_set ic cs c)"

datatype item = One cls | Star cls | Plus cls | Lazy cls

fun rx_match :: "bool \<Rightarrow> item list \<Rightarrow> string \<Rightarrow> string list option" where
  "rx_match ic [] s = Some []"
| "rx_match ic (One c # r) s =
     (case s of [] \<Rightarrow> None
      | x # xs \<Rightarrow> if accepts ic c x then map_option ((#) [x]) (rx_match ic r xs) else None)"
| "rx_match ic (Star c # r) s =
     (case s of [] \<Rightarrow> map_option ((#) []) (rx_match ic r s)
      | x # xs \<Rightarrow>
          if accepts ic c x then
            (case rx_match ic (Star c # r) xs of
               Some (w # ws) \<Rightarrow> Some ((x # w) # ws)
             | _ \<Rightarrow> map_option ((#) []) (rx_match ic r s))
          else map_option ((#) []) (rx_match ic r s))"
| "rx_match ic (Plus c # r) s =
     (case s of [] \<Rightarrow> None
      | x # xs \<Rightarrow>
          if accepts ic c x then
            (case rx_match ic (Star c # r) xs of
               Some (w # ws) \<Rightarrow> Some ((x # w) # ws)
             | _ \<Rightarrow> None)
          else None)"
| "rx_match ic (Lazy c # r) s =
     (case rx_match ic r s of
        Some ws \<Rightarrow> Some ([] # ws)
      | None \<Rightarrow>
          (case s of [] \<Rightarrow> None
           | x # xs \<Rightarrow>
               if accepts ic c x then
                 (case rx_match ic (Lazy c # r) xs of
                    Some (w # ws) \<Rightarrow> Some ((x # w) # ws)
                  | _ \<Rightarrow> None)
               else None))"

text \<open>\<open>re.search\<close> tries the start positions from left to right, the end of the text
  included.\<close>

fun search_from :: "bool \<Rightarrow> item list \<Rightarrow> string \<Rightarrow> string list option" where
  "search_from ic p [] = rx_match ic p []"
| "search_from ic p (x # xs) =
     (case rx_match ic p (x # xs) of Some ws \<Rightarrow> Some ws | None \<Rightarrow> search_from ic p xs)"

text \<open>A pattern: \<open>anchored\<close> says that it starts with \<open>^\<close>, which (without
  \<open>re.MULTILINE\<close>) matches at position 0 only.\<close>

datatype regex = Regex (anchored: bool) (pre: "item list") (grp: "item list") (post: "item list")

definition rx_items :: "regex \<Rightarrow> item list" where
  "rx_items rx = pre rx @ grp rx @ post rx"

text \<open>\<open>re.search(rx, s, flags)\<close> and \<open>match.group(1)\<close> in one: the text of the group
  of the first match, if there is a match.\<close>

definition re_search :: "bool \<Rightarrow> regex \<Rightarrow> string \<Rightarrow> string option" where
  "re_search ic rx s =
     map_option (\<lambda>ws. concat (take (length (grp rx)) (drop (length (pre rx)) ws)))
       (if anchored rx then rx_match ic (rx_items rx) s else search_from ic (rx_items rx) s)"

definition lits :: "string \<Rightarrow> item list" where
  "lits s = map (\<lambda>c. One (Lit c)) s"


section \<open>The Event Extractor\<close>

subsection \<open>Player-name inference\<close>

text \<open>The group \<open>([A-Z]\.\s*[A-Za-z'\-]+)\<close> shared by the seven patterns.\<close>

definition name_chars :: string where
  "name_chars = upper_chars @ lower_chars @ [CHR 0x27, CHR ''-'']"

definition name_grp :: "item list" where
  "name_grp = [One (OneOf upper_chars), One (Lit CHR ''.''), Star Space, Plus (OneOf name_chars)]"

text \<open>
  \<^verbatim>\<open>pass.*?to\s+([A-Z]\.\s*[A-Za-z'\-]+).*?touchdown\<close>,
  \<^verbatim>\<open>([A-Z]\.\s*[A-Za-z'\-]+)\s+\d+\s+yard.*?run.*?touchdown\<close>,
  \<^verbatim>\<open>([A-Z]\.\s*[A-Za-z'\-]+).*?touchdown\<close>.
\<close>

definition touchdown_patterns :: "regex list" where
  "touchdown_patterns =
     [Regex False (lits ''pass'' @ [Lazy Dot] @ lits ''to'' @ [Plus Space]) name_grp
        ([Lazy Dot] @ lits ''touchdown''),
      Regex False [] name_grp
        ([Plus Space, Plus Digit, Plus Space] @ lits ''yard'' @ [Lazy Dot] @ lits ''run''
           @ [Lazy Dot] @ lits ''touchdown''),
      Regex False [] name_grp ([Lazy Dot] @ lits ''touchdown'')]"

text \<open>
  \<^verbatim>\<open>intercepted.*?by\s+([A-Z]\.\s*[A-Za-z'\-]+)\<close>,
  \<^verbatim>\<open>([A-Z]\.\s*[A-Za-z'\-]+).*?intercept\<close>.
\<close>

definition interception_patterns :: "regex list" where
  "interception_patterns =
     [Regex False (lits ''intercepted'' @ [Lazy Dot] @ lits ''by'' @ [Plus Space]) name_grp [],
      Regex False [] name_grp ([Lazy Dot] @ lits ''intercept'')]"

text \<open>
  \<^verbatim>\<open>([A-Z]\.\s*[A-Za-z'\-]+).*?fumble\<close>,
  \<^verbatim>\<open>fumble.*?by\s+([A-Z]\.\s*[A-Za-z'\-]+)\<close>.
\<close>

definition fumble_patterns :: "regex list" where
  "fumble_patterns =
     [Regex False [] name_grp ([Lazy Dot] @ lits ''fumble''),
      Regex False (lits ''fumble'' @ [Lazy Dot] @ lits ''by'' @ [Plus Space]) name_grp []]"

text \<open>The \<open>if\<close>/\<open>elif\<close> chain on \<open>play_type\<close>; \<open>None\<close> is the final
  \<open>return None\<close> of an unknown type.\<close>

definition patterns_for :: "string \<Rightarrow> regex list option" where
  "patterns_for play_type =
     (if play_type = ''touchdown'' then Some touchdown_patterns
      else if play_type = ''interception'' then Some interception_patterns
      else if play_type = ''fumble'' then Some fumble_patterns
      else None)"

text \<open>The loop \<open>for pattern in patterns\<close>: the first pattern that matches returns.\<close>

fun first_match :: "regex list \<Rightarrow> string \<Rightarrow> string option" where
  "first_match [] play_text = None"
| "first_match (pattern # patterns) play_text =
     (case re_search True pattern play_text of
        Some g \<Rightarrow> Some (collapse_ws (strip g))
      | None \<Rightarrow> first_match patterns play_text)"

definition extract_player_from_play_text :: "string \<Rightarrow> string \<Rightarrow> string option" where
  "extract_player_from_play_text play_text play_type =
     (if play_text = [] then None
      else (case patterns_for play_type of
              None \<Rightarrow> None
            | Some patterns \<Rightarrow> first_match patterns play_text))"

subsection \<open>The derived event lists\<close>

text \<open>\<open>_extract_scoring_plays\<close>.\<close>

fun extract_scoring_plays :: "json list \<Rightarrow> json list option" where
  "extract_scoring_plays [] = Some []"
| "extract_scoring_plays (play # plays) = do {
     flag \<leftarrow> dget play ''scoring_play'' (JBool False);
     rest \<leftarrow> extract_scoring_plays plays;
     Some (if truthy flag then play # rest else rest)
   }"

text \<open>
  The body shared by \<open>_extract_touchdowns\<close>, \<open>_extract_interceptions\<close> and
  \<open>_extract_fumbles\<close>, which differ in the keyword looked for and in the play type
  handed to the inference: \<open>play.copy()\<close>, with \<open>'player'\<close> set when a player was found.
\<close>

definition attach_player :: "string \<Rightarrow> string \<Rightarrow> (string \<times> json) list \<Rightarrow> json" where
  "attach_player play_type text kvs =
     (case extract_player_from_play_text text play_type of
        Some player \<Rightarrow>
          if player \<noteq> [] then JObj (dict_set kvs ''player'' (JStr player)) else JObj kvs
      | None \<Rightarrow> JObj kvs)"

fun extract_events :: "string \<Rightarrow> string \<Rightarrow> json list \<Rightarrow> json list option" where
  "extract_events keyword play_type [] = Some []"
| "extract_events keyword play_type (play # plays) = do {
     t \<leftarrow> dget play ''text'' (JStr []);
     text \<leftarrow> as_str t;
     rest \<leftarrow> extract_events keyword play_type plays;
     Some (if contains keyword (lower text)
           then (case play of JObj kvs \<Rightarrow> attach_player play_type text kvs # rest | _ \<Rightarrow> rest)
           else rest)
   }"

definition extract_touchdowns :: "json list \<Rightarrow> json list option" where
  "extract_touchdowns plays = extract_events ''touchdown'' ''touchdown'' plays"

definition extract_interceptions :: "json list \<Rightarrow> json list option" where
  "extract_interceptions plays = extract_events ''intercept'' ''interception'' plays"

definition extract_fumbles :: "json list \<Rightarrow> json list option" where
  "extract_fumbles plays = extract_events ''fumble'' ''fumble'' plays"

subsection \<open>The comprehensive record\<close>

record team_stat =
  ts_score :: int
  ts_record :: string
  ts_home_away :: json

text \<open>\<open>team_stats[abbr] = entry\<close> on a dict whose keys are any hashable values: the
  key found equal keeps its place and its own spelling.\<close>

fun key_set :: "(json \<times> 'v) list \<Rightarrow> json \<Rightarrow> 'v \<Rightarrow> (json \<times> 'v) list" where
  "key_set [] k v = [(k, v)]"
| "key_set ((k', v') # kvs) k v =
     (if hash_key k' = hash_key k then (k', v) # kvs else (k', v') # key_set kvs k v)"

text \<open>\<open>_create_team_stats\<close>: the dict is keyed by the abbreviation, which must be
  hashable; a later team with the same abbreviation replaces the entry in place.\<close>

fun create_team_stats_loop :: "(json \<times> team_stat) list \<Rightarrow> json list \<Rightarrow> (json \<times> team_stat) list option" where
  "create_team_stats_loop team_stats [] = Some team_stats"
| "create_team_stats_loop team_stats (team # teams) = do {
     abbr \<leftarrow> dget team ''abbreviation'' (JStr ''UNK'');
     sc \<leftarrow> dget team ''score'' (JInt 0);
     score \<leftarrow> py_int sc;
     ha \<leftarrow> dget team ''home_away'' (JStr ''unknown'');
     _ \<leftarrow> hash_key abbr;
     create_team_stats_loop
       (key_set team_stats abbr \<lparr>ts_score = score, ts_record = ''0-0'', ts_home_away = ha\<rparr>) teams
   }"

definition create_team_stats :: "json \<Rightarrow> (json \<times> team_stat) list option" where
  "create_team_stats game_info = do {
     ts \<leftarrow> dget game_info ''teams'' (JList []);
     teams \<leftarrow> py_iter ts;
     create_team_stats_loop [] teams
   }"

record box_game_info =
  bg_game_id :: json
  bg_date :: json
  bg_status :: json
  bg_venue :: json
  bg_attendance :: int

record box_score =
  bs_game_info :: box_game_info
  bs_team_stats :: "(json \<times> team_stat) list"
  bs_player_stats :: "(string \<times> json) list"
  bs_scoring_summary :: "json list"

record play_by_play =
  pbp_game_info :: json
  pbp_drives :: json
  pbp_plays :: json
  pbp_scoring_plays :: "json list"
  pbp_touchdowns :: "json list"
  pbp_interceptions :: "json list"
  pbp_fumbles :: "json list"

record comprehensive =
  c_game_id :: json
  c_date :: string
  c_box_score :: box_score
  c_play_by_play :: play_by_play
  c_processing_timestamp :: string

text \<open>\<open>Path.stem\<close>: the file name without its last suffix.\<close>

definition stem :: "string \<Rightarrow> string" where
  "stem name =
     (let ext = takeWhile (\<lambda>c. c \<noteq> CHR ''.'') (rev name) in
      if CHR ''.'' \<in> set name \<and> ext \<noteq> [] \<and> length ext + 1 < length name
      then take (length name - length ext - 1) name else name)"

text \<open>
  \<open>process_play_by_play_file\<close>. The file is its name and what \<open>json.load\<close> gives
  (\<open>None\<close> when opening or parsing raises); \<open>now\<close> is what
  \<open>datetime.now().isoformat()\<close> returns during the call. The result \<open>None\<close> is the
  source's \<open>return None\<close>, on a missing game id and in the \<open>except\<close> branch.
\<close>

definition process_play_by_play_file :: "string \<Rightarrow> json option \<Rightarrow> string \<Rightarrow> comprehensive option" where
  "process_play_by_play_file file_name content now = do {
     data \<leftarrow> content;
     game_info \<leftarrow> dget data ''game_info'' (JObj []);
     drives \<leftarrow> dget data ''drives'' (JList []);
     plays \<leftarrow> dget data ''plays'' (JList []);
     game_id \<leftarrow> dget game_info ''game_id'' JNull;
     if \<not> truthy game_id then None
     else do {
       date \<leftarrow> dget game_info ''date'' (JStr []);
       status \<leftarrow> dget game_info ''status'' (JObj []);
       venue \<leftarrow> dget game_info ''venue'' (JObj []);
       team_stats \<leftarrow> create_team_stats game_info;
       play_list \<leftarrow> py_iter plays;
       scoring_plays \<leftarrow> extract_scoring_plays play_list;
       touchdowns \<leftarrow> extract_touchdowns play_list;
       interceptions \<leftarrow> extract_interceptions play_list;
       fumbles \<leftarrow> extract_fumbles play_list;
       Some \<lparr>c_game_id = game_id,
             c_date = hd (split_on CHR ''_'' (stem file_name)),
             c_box_score = \<lparr>bs_game_info = \<lparr>bg_game_id = game_id, bg_date = date,
                 bg_status = status, bg_venue = venue, bg_attendance = 0\<rparr>,
               bs_team_stats = team_stats, bs_player_stats = [], bs_scoring_summary = []\<rparr>,
             c_play_by_play = \<lparr>pbp_game_info = game_info, pbp_drives = drives, pbp_plays = plays,
               pbp_scoring_plays = scoring_plays, pbp_touchdowns = touchdowns,
               pbp_interceptions = interceptions, pbp_fumbles = fumbles\<rparr>,
             c_processing_timestamp = now\<rparr>
     }
   }"


subsection \<open>The batch run and the command line\<close>

text \<open>
  A play-by-play file is its name, its modification time and what \<open>json.load\<close> gives
  (\<open>None\<close> when opening or parsing raises); the comprehensive directory maps a file name
  to its modification time and, for a file this run wrote, the record written.
  Modification times are compared only, so they are rationals.
\<close>

record source_file =
  sf_name :: string
  sf_mtime :: rat
  sf_content :: "json option"

record comp_file =
  cf_mtime :: rat
  cf_written :: "comprehensive option"

text \<open>
  What a run of the extractor meets outside the program: \<open>ext_clock name\<close> is the wall
  clock while the file \<open>name\<close> is processed (the timestamp text and the modification time
  a file written then gets); \<open>ext_glob pattern\<close> is the sorted list of the paths that
  \<open>Path.glob\<close> finds in the play-by-play directory for a pattern it accepts (\<open>None\<close>
  when scanning the directory raises); \<open>ext_can_write name\<close> says whether the
  comprehensive file \<open>name\<close> can be opened for writing; \<open>ext_mkdir_ok\<close> says whether
  the \<open>mkdir\<close> of the constructor succeeds; \<open>ext_stdout_encodes\<close> says whether the
  standard output can encode the non-ASCII signs of the closing message.
\<close>

record extract_env =
  ext_clock :: "string \<Rightarrow> string \<times> rat"
  ext_glob :: "string \<Rightarrow> source_file list option"
  ext_can_write :: "string \<Rightarrow> bool"
  ext_mkdir_ok :: bool
  ext_stdout_encodes :: bool

datatype extract_log = Skipping string | Created string | Failed string | Error_processing_file string

record processor =
  processed_count :: nat
  failed_count :: nat
  comprehensive_dir :: "(string \<times> comp_file) list"
  logged :: "extract_log list"

text \<open>The pattern that \<open>process_recent_files\<close> hands to \<open>Path.glob\<close>.\<close>

definition glob_pattern :: "string option \<Rightarrow> string" where
  "glob_pattern date_pattern =
     (case date_pattern of
        Some dp \<Rightarrow> if dp \<noteq> [] then dp @ ''*_play_by_play.json'' else ''*_play_by_play.json''
      | None \<Rightarrow> ''*_play_by_play.json'')"

text \<open>
  \<open>Path.glob\<close> (pathlib of Python 3.11, POSIX paths) refuses a pattern before it looks at
  the directory: the empty pattern and a path component that contains \<open>**\<close> without being
  \<open>**\<close> with a \<open>ValueError\<close>, a pattern that starts with \<open>/\<close> with a
  \<open>NotImplementedError\<close>.
\<close>

definition glob_raises :: "string \<Rightarrow> bool" where
  "glob_raises pattern =
     (pattern = [] \<or> prefix ''/'' pattern
      \<or> list_ex (\<lambda>part. contains ''**'' part \<and> part \<noteq> ''**'') (split_on CHR ''/'' pattern))"

definition comprehensive_file :: "string \<Rightarrow> string" where
  "comprehensive_file name = replace_str ''_play_by_play'' ''_complete'' (stem name) @ ''.json''"

text \<open>The freshness gate: the output exists and is strictly newer than the source.\<close>

definition is_fresh :: "(string \<times> comp_file) list \<Rightarrow> source_file \<Rightarrow> bool" where
  "is_fresh dir f =
     (case map_of dir (comprehensive_file (sf_name f)) of
        Some cf \<Rightarrow> cf_mtime cf > sf_mtime f
      | None \<Rightarrow> False)"

text \<open>One turn of the loop of \<open>process_recent_files\<close>. An exception in the turn (here:
  the comprehensive file cannot be opened for writing) is caught by the turn's
  \<open>except\<close> branch and counts as a failure.\<close>

definition process_one :: "extract_env \<Rightarrow> processor \<Rightarrow> source_file \<Rightarrow> processor" where
  "process_one env st f =
     (if is_fresh (comprehensive_dir st) f
      then st\<lparr>logged := logged st @ [Skipping (sf_name f)]\<rparr>
      else (case process_play_by_play_file (sf_name f) (sf_content f) (fst (ext_clock env (sf_name f))) of
              Some comprehensive \<Rightarrow>
                if ext_can_write env (comprehensive_file (sf_name f)) then
                  st\<lparr>comprehensive_dir := dict_set (comprehensive_dir st) (comprehensive_file (sf_name f))
                         \<lparr>cf_mtime = snd (ext_clock env (sf_name f)), cf_written = Some comprehensive\<rparr>,
                     processed_count := processed_count st + 1,
                     logged := logged st @ [Created (comprehensive_file (sf_name f))]\<rparr>
                else
                  st\<lparr>failed_count := failed_count st + 1,
                     logged := logged st @ [Error_processing_file (sf_name f)]\<rparr>
            | None \<Rightarrow>
                st\<lparr>failed_count := failed_count st + 1,
                   logged := logged st @ [Failed (sf_name f)]\<rparr>))"

fun process_loop :: "extract_env \<Rightarrow> processor \<Rightarrow> source_file list \<Rightarrow> processor" where
  "process_loop env st [] = st"
| "process_loop env st (f # fs) = process_loop env (process_one env st f) fs"

record run_result =
  rr_processed :: nat
  rr_failed :: nat
  rr_total :: nat

text \<open>\<open>process_recent_files\<close>: \<open>None\<close> is an exception of \<open>glob\<close>, which nothing
  catches.\<close>

definition process_recent_files ::
  "extract_env \<Rightarrow> processor \<Rightarrow> string option \<Rightarrow> (run_result \<times> processor) option" where
  "process_recent_files env st date_pattern =
     (let pattern = glob_pattern date_pattern in
      if glob_raises pattern then None
      else (case ext_glob env pattern of
              None \<Rightarrow> None
            | Some files_to_process \<Rightarrow>
                (let st' = process_loop env st files_to_process
                 in Some (\<lparr>rr_processed = processed_count st', rr_failed = failed_count st',
                            rr_total = length files_to_process\<rparr>, st'))))"

text \<open>
  \<open>main\<close> of the extractor, after \<open>argparse\<close>: the two options, a fresh processor over
  the comprehensive directory found on disk, and the exit status of the process: 0 when
  \<open>main\<close> returns, 1 from \<open>sys.exit(1)\<close> and 1 when an exception ends the run (then
  with the result \<open>None\<close> if the loop was not reached). The closing message carries a
  non-ASCII sign in both branches, and \<open>print\<close> raises when the standard output cannot
  encode it.
\<close>

record extract_args =
  arg_date_pattern :: "string option"
  arg_all :: bool

definition new_processor :: "(string \<times> comp_file) list \<Rightarrow> processor" where
  "new_processor dir = \<lparr>processed_count = 0, failed_count = 0, comprehensive_dir = dir, logged = []\<rparr>"

definition main_date_pattern :: "extract_args \<Rightarrow> string option" where
  "main_date_pattern args =
     (let date_pattern = (case arg_date_pattern args of
                            Some dp \<Rightarrow> if dp \<noteq> [] then Some dp else None
                          | None \<Rightarrow> None)
      in if arg_all args then None else date_pattern)"

definition extract_main ::
  "extract_env \<Rightarrow> (string \<times> comp_file) list \<Rightarrow> extract_args
     \<Rightarrow> nat \<times> (run_result \<times> processor) option" where
  "extract_main env dir args =
     (if \<not> ext_mkdir_ok env then (1, None)
      else (case process_recent_files env (new_processor dir) (main_date_pattern args) of
              None \<Rightarrow> (1, None)
            | Some (result, st) \<Rightarrow>
                (if rr_failed result > 0 then (1, Some (result, st))
                 else if ext_stdout_encodes env then (0, Some (result, st))
                 else (1, Some (result, st)))))"


section \<open>The Weekly Aggregator\<close>

subsection \<open>Per-game statistic extraction\<close>

text \<open>\<open>len(v)\<close>, and \<open>v[0]\<close> (on a dict of string keys the key \<open>0\<close> is missing).\<close>

fun py_len :: "json \<Rightarrow> nat option" where
  "py_len (JObj kvs) = Some (length kvs)"
| "py_len (JList xs) = Some (length xs)"
| "py_len (JStr s) = Some (length s)"
| "py_len _ = None"

fun index0 :: "json \<Rightarrow> json option" where
  "index0 (JList (x # xs)) = Some x"
| "index0 (JStr (c # cs)) = Some (JStr [c])"
| "index0 _ = None"

text \<open>\<open>list(d.keys())\<close>.\<close>

fun dict_keys :: "json \<Rightarrow> string list option" where
  "dict_keys (JObj kvs) = Some (map fst kvs)"
| "dict_keys _ = None"

text \<open>\<open>_extract_team_from_play\<close>; the play itself is not read.\<close>

definition extract_team_from_play :: "json \<Rightarrow> json option" where
  "extract_team_from_play comprehensive_data = do {
     box \<leftarrow> dget comprehensive_data ''box_score'' (JObj []);
     team_stats \<leftarrow> dget box ''team_stats'' (JObj []);
     n \<leftarrow> py_len team_stats;
     if n \<ge> 2 then do {
       teams \<leftarrow> dict_keys team_stats;
       game_info \<leftarrow> dget box ''game_info'' (JObj []);
       team_list \<leftarrow> dget game_info ''teams'' (JList [JObj []]);
       first \<leftarrow> index0 team_list;
       dget first ''name'' (JStr (hd teams))
     } else Some (JStr ''Unknown Team'')
   }"

text \<open>
  \<open>team[:3].upper()\<close>: a list can be sliced but has no \<open>upper\<close>. Upper-casing can leave
  Latin-1 (the sharp s becomes two letters), so the abbreviation is kept as \<open>Upper\<close> of
  the first three characters, not rendered.
\<close>

datatype upper_text = Upper string

fun team_abbrev :: "json \<Rightarrow> upper_text option" where
  "team_abbrev (JStr s) = Some (Upper (take 3 s))"
| "team_abbrev _ = None"

text \<open>\<^verbatim>\<open>(\d+)\s*yard\<close>, searched in the lower-cased text; \<open>int\<close> of the group.\<close>

definition yards_pattern :: regex where
  "yards_pattern = Regex False [] [Plus Digit] ([Star Space] @ lits ''yard'')"

definition extract_yards_from_text :: "string \<Rightarrow> int option" where
  "extract_yards_from_text text =
     (case re_search False yards_pattern (lower text) of
        Some g \<Rightarrow> int_of_str g
      | None \<Rightarrow> Some 0)"

text \<open>\<^verbatim>\<open>^\([^)]*\)\s*([A-Z]\.[A-Za-z]+)\s+pass\<close>, searched in the text as it is.\<close>

definition passer_pattern :: regex where
  "passer_pattern =
     Regex True [One (Lit CHR ''(''), Star (NoneOf '')''), One (Lit CHR '')''), Star Space]
       [One (OneOf upper_chars), One (Lit CHR ''.''), Plus (OneOf (upper_chars @ lower_chars))]
       ([Plus Space] @ lits ''pass'')"

definition extract_passer_from_text :: "string \<Rightarrow> string option" where
  "extract_passer_from_text text = re_search False passer_pattern text"

text \<open>The line items: the dict literals of the source, with the counters in the order
  of the literal.\<close>

record line_item =
  li_player_id :: string
  li_name :: string
  li_team :: json
  li_team_abbrev :: upper_text
  li_counts :: "(string \<times> int) list"

definition player_id :: "string \<Rightarrow> string" where
  "player_id name = ''player_'' @ replace_char CHR '' '' CHR ''_'' name"

definition passing_item :: "string \<Rightarrow> json \<Rightarrow> upper_text \<Rightarrow> int \<Rightarrow> line_item" where
  "passing_item passer team abbrev yards =
     \<lparr>li_player_id = player_id passer, li_name = passer, li_team = team, li_team_abbrev = abbrev,
      li_counts = [(''completions'', 1), (''attempts'', 1), (''yards'', yards),
                   (''touchdowns'', 1), (''interceptions'', 0)]\<rparr>"

definition receiving_item :: "string \<Rightarrow> json \<Rightarrow> upper_text \<Rightarrow> int \<Rightarrow> line_item" where
  "receiving_item receiver team abbrev yards =
     \<lparr>li_player_id = player_id receiver, li_name = receiver, li_team = team, li_team_abbrev = abbrev,
      li_counts = [(''receptions'', 1), (''yards'', yards), (''touchdowns'', 1)]\<rparr>"

definition rushing_item :: "string \<Rightarrow> json \<Rightarrow> upper_text \<Rightarrow> int \<Rightarrow> line_item" where
  "rushing_item player_name team abbrev yards =
     \<lparr>li_player_id = player_id player_name, li_name = player_name, li_team = team,
      li_team_abbrev = abbrev,
      li_counts = [(''carries'', 1), (''yards'', yards), (''touchdowns'', 1)]\<rparr>"

definition defensive_item :: "string \<Rightarrow> json \<Rightarrow> upper_text \<Rightarrow> line_item" where
  "defensive_item player_name team abbrev =
     \<lparr>li_player_id = player_id player_name, li_name = player_name, li_team = team,
      li_team_abbrev = abbrev,
      li_counts = [(''interceptions'', 1), (''tackles'', 0), (''sacks'', 0)]\<rparr>"

record player_stats =
  passing :: "line_item list"
  rushing :: "line_item list"
  receiving :: "line_item list"
  defensive :: "line_item list"

definition no_stats :: player_stats where
  "no_stats = \<lparr>passing = [], rushing = [], receiving = [], defensive = []\<rparr>"

text \<open>The branch \<open>'pass' in text_lower and 'to' in text_lower\<close>: first the passer's
  item, when the passer pattern matches, then the receiver's.\<close>

definition add_passing :: "player_stats \<Rightarrow> string \<Rightarrow> string \<Rightarrow> json \<Rightarrow> player_stats option" where
  "add_passing ps text text_lower team =
     (case extract_passer_from_text text of
        Some passer \<Rightarrow>
          if passer \<noteq> [] then do {
            abbrev \<leftarrow> team_abbrev team;
            yards \<leftarrow> extract_yards_from_text text_lower;
            Some (ps\<lparr>passing := passing ps @ [passing_item passer team abbrev yards]\<rparr>)
          } else Some ps
      | None \<Rightarrow> Some ps)"

definition add_receiving :: "player_stats \<Rightarrow> json \<Rightarrow> string \<Rightarrow> json \<Rightarrow> player_stats option" where
  "add_receiving ps receiver text_lower team =
     (if truthy receiver then do {
        name \<leftarrow> as_str receiver;
        abbrev \<leftarrow> team_abbrev team;
        yards \<leftarrow> extract_yards_from_text text_lower;
        Some (ps\<lparr>receiving := receiving ps @ [receiving_item name team abbrev yards]\<rparr>)
      } else Some ps)"

definition add_rushing :: "player_stats \<Rightarrow> json \<Rightarrow> string \<Rightarrow> json \<Rightarrow> player_stats option" where
  "add_rushing ps player_name text team = do {
     name \<leftarrow> as_str player_name;
     abbrev \<leftarrow> team_abbrev team;
     yards \<leftarrow> extract_yards_from_text text;
     Some (ps\<lparr>rushing := rushing ps @ [rushing_item name team abbrev yards]\<rparr>)
   }"

text \<open>
  One turn of the loop over the touchdowns. The state is the statistics so far and
  \<open>processed_players\<close> (its members by their hash keys). \<open>None\<close> is an exception, which
  leaves the whole extraction.
\<close>

definition touchdown_step :: "json \<Rightarrow> player_stats \<times> json list \<Rightarrow> json \<Rightarrow> (player_stats \<times> json list) option" where
  "touchdown_step comprehensive_data state td =
     (case state of (ps, processed_players) \<Rightarrow> do {
        player_name \<leftarrow> dget td ''player'' JNull;
        if \<not> truthy player_name then Some (ps, processed_players)
        else do {
          key \<leftarrow> hash_key player_name;
          if key \<in> set processed_players then Some (ps, processed_players)
          else do {
            t \<leftarrow> dget td ''text'' (JStr []);
            text \<leftarrow> as_str t;
            team \<leftarrow> extract_team_from_play comprehensive_data;
            ps' \<leftarrow> (if contains ''pass'' (lower text) \<and> contains ''to'' (lower text) then do {
                       ps1 \<leftarrow> add_passing ps text (lower text) team;
                       add_receiving ps1 player_name (lower text) team
                     }
                     else if contains ''run'' (lower text) \<or> contains ''rush'' (lower text)
                     then add_rushing ps player_name text team
                     else Some ps);
            Some (ps', processed_players @ [key])
          }
        }
      })"

fun touchdown_loop :: "json \<Rightarrow> player_stats \<times> json list \<Rightarrow> json list \<Rightarrow> (player_stats \<times> json list) option" where
  "touchdown_loop comprehensive_data state [] = Some state"
| "touchdown_loop comprehensive_data state (td # tds) = do {
     state' \<leftarrow> touchdown_step comprehensive_data state td;
     touchdown_loop comprehensive_data state' tds
   }"

definition interception_step :: "json \<Rightarrow> player_stats \<Rightarrow> json \<Rightarrow> player_stats option" where
  "interception_step comprehensive_data ps interception = do {
     player_name \<leftarrow> dget interception ''player'' JNull;
     if \<not> truthy player_name then Some ps
     else do {
       team \<leftarrow> extract_team_from_play comprehensive_data;
       name \<leftarrow> as_str player_name;
       abbrev \<leftarrow> team_abbrev team;
       Some (ps\<lparr>defensive := defensive ps @ [defensive_item name team abbrev]\<rparr>)
     }
   }"

fun interception_loop :: "json \<Rightarrow> player_stats \<Rightarrow> json list \<Rightarrow> player_stats option" where
  "interception_loop comprehensive_data ps [] = Some ps"
| "interception_loop comprehensive_data ps (i # is) = do {
     ps' \<leftarrow> interception_step comprehensive_data ps i;
     interception_loop comprehensive_data ps' is
   }"

definition extract_player_stats_from_comprehensive :: "json \<Rightarrow> player_stats option" where
  "extract_player_stats_from_comprehensive comprehensive_data = do {
     pbp \<leftarrow> dget comprehensive_data ''play_by_play'' (JObj []);
     touchdowns \<leftarrow> dget pbp ''touchdowns'' (JList []);
     interceptions \<leftarrow> dget pbp ''interceptions'' (JList []);
     tds \<leftarrow> py_iter touchdowns;
     state \<leftarrow> touchdown_loop comprehensive_data (no_stats, []) tds;
     ints \<leftarrow> py_iter interceptions;
     interception_loop comprehensive_data (fst state) ints
   }"


subsection \<open>Week resolution\<close>

text \<open>
  \<open>datetime.strptime(s, '%Y-%m-%d')\<close>: four digits, a month and a day of one or two
  digits (the alternatives of the library's pattern, in its order), nothing left over,
  and a date of the calendar. \<open>None\<close> is the \<open>ValueError\<close>. The datetime has time
  00:00:00, so two results compare as their dates do.
\<close>

type_synonym date = "nat \<times> nat \<times> nat"

definition nonzero_digits :: string where
  "nonzero_digits = ''123456789''"

fun parse_month :: "string \<Rightarrow> (nat \<times> string) option" where
  "parse_month (a # b # r) =
     (if a = CHR ''1'' \<and> b \<in> set ''012'' then Some (10 + digit_val b, r)
      else if a = CHR ''0'' \<and> b \<in> set nonzero_digits then Some (digit_val b, r)
      else if a \<in> set nonzero_digits then Some (digit_val a, b # r)
      else None)"
| "parse_month [a] = (if a \<in> set nonzero_digits then Some (digit_val a, []) else None)"
| "parse_month [] = None"

fun parse_day :: "string \<Rightarrow> (nat \<times> string) option" where
  "parse_day (a # b # r) =
     (if a = CHR ''3'' \<and> b \<in> set ''01'' then Some (30 + digit_val b, r)
      else if a \<in> set ''12'' \<and> is_digit b then Some (10 * digit_val a + digit_val b, r)
      else if a = CHR ''0'' \<and> b \<in> set nonzero_digits then Some (digit_val b, r)
      else if a \<in> set nonzero_digits then Some (digit_val a, b # r)
      else if a = CHR '' '' \<and> b \<in> set nonzero_digits then Some (digit_val b, r)
      else None)"
| "parse_day [a] = (if a \<in> set nonzero_digits then Some (digit_val a, []) else None)"
| "parse_day [] = None"

definition leap_year :: "nat \<Rightarrow> bool" where
  "leap_year y = (y mod 4 = 0 \<and> (y mod 100 \<noteq> 0 \<or> y mod 400 = 0))"

definition days_in_month :: "nat \<Rightarrow> nat \<Rightarrow> nat" where
  "days_in_month y m =
     (if m = 2 then (if leap_year y then 29 else 28)
      else if m \<in> {4, 6, 9, 11} then 30 else 31)"

definition strptime :: "string \<Rightarrow> date option" where
  "strptime s =
     (case s of
        y1 # y2 # y3 # y4 # sep # rest \<Rightarrow>
          if is_digit y1 \<and> is_digit y2 \<and> is_digit y3 \<and> is_digit y4 \<and> sep = CHR ''-'' then
            (case parse_month rest of
               Some (m, sep2 # rest2) \<Rightarrow>
                 if sep2 = CHR ''-'' then
                   (case parse_day rest2 of
                      Some (d, left) \<Rightarrow>
                        (let y = digits_val [y1, y2, y3, y4] in
                         if left = [] \<and> 1 \<le> y \<and> d \<le> days_in_month y m
                         then Some (y, m, d) else None)
                    | None \<Rightarrow> None)
                 else None
             | _ \<Rightarrow> None)
          else None
      | _ \<Rightarrow> None)"

text \<open>\<open>a <= b\<close> on two such datetimes.\<close>

fun date_le :: "date \<Rightarrow> date \<Rightarrow> bool" where
  "date_le (y1, m1, d1) (y2, m2, d2) =
     (y1 < y2 \<or> (y1 = y2 \<and> (m1 < m2 \<or> (m1 = m2 \<and> d1 \<le> d2))))"

text \<open>\<open>self.week_ranges\<close>, in the order of the dict literal.\<close>

definition week_ranges :: "(nat \<times> string \<times> string) list" where
  "week_ranges =
     [(1, ''2025-08-01'', ''2025-08-11''),
      (2, ''2025-08-12'', ''2025-08-18''),
      (3, ''2025-08-19'', ''2025-08-25''),
      (4, ''2025-08-26'', ''2025-08-31'')]"

text \<open>The loop of \<open>get_week_for_date\<close> over a table of ranges: the outer \<open>None\<close> is
  an exception of \<open>strptime\<close>, \<open>Some None\<close> the final \<open>return None\<close>.\<close>

fun week_loop :: "date \<Rightarrow> (nat \<times> string \<times> string) list \<Rightarrow> nat option option" where
  "week_loop date_obj [] = Some None"
| "week_loop date_obj ((week, start_date, end_date) # ranges) = do {
     start_obj \<leftarrow> strptime start_date;
     end_obj \<leftarrow> strptime end_date;
     if date_le start_obj date_obj \<and> date_le date_obj end_obj then Some (Some week)
     else week_loop date_obj ranges
   }"

definition get_week_for_date :: "string \<Rightarrow> nat option option" where
  "get_week_for_date date_str = do {
     date_obj \<leftarrow> strptime date_str;
     week_loop date_obj week_ranges
   }"

subsection \<open>Game summaries\<close>

record team_desc =
  td_name :: string
  td_abbreviation :: string
  td_score :: int
  td_home_away :: json

text \<open>The status text is a value of the record or \<open>str(status_obj)\<close>; the latter is
  kept as \<open>Printed\<close> of the value, not rendered.\<close>

datatype status_text = Described json | Printed json

record game_summary =
  gs_id :: json
  gs_date :: json
  gs_name :: string
  gs_status :: status_text
  gs_completed :: json
  gs_home_team :: "team_desc option"
  gs_away_team :: "team_desc option"

text \<open>The loop over \<open>team_stats.items()\<close>.\<close>

fun team_descs :: "(string \<times> json) list \<Rightarrow> team_desc list option" where
  "team_descs [] = Some []"
| "team_descs ((abbrev, stats) # items) = do {
     sc \<leftarrow> dget stats ''score'' (JInt 0);
     score \<leftarrow> py_int sc;
     ha \<leftarrow> dget stats ''home_away'' (JStr ''unknown'');
     rest \<leftarrow> team_descs items;
     Some (\<lparr>td_name = abbrev, td_abbreviation = abbrev, td_score = score,
            td_home_away = ha\<rparr> # rest)
   }"

fun dict_items :: "json \<Rightarrow> (string \<times> json) list option" where
  "dict_items (JObj kvs) = Some kvs"
| "dict_items _ = None"

fun is_dict :: "json \<Rightarrow> bool" where
  "is_dict (JObj kvs) = True"
| "is_dict _ = False"

text \<open>The status and the completion flag, from \<open>game_info['status']\<close>.\<close>

definition game_status :: "json \<Rightarrow> (status_text \<times> json) option" where
  "game_status game_info = do {
     status_obj \<leftarrow> dget game_info ''status'' (JObj []);
     if is_dict status_obj then do {
       type_obj \<leftarrow> dget status_obj ''type'' (JObj []);
       if is_dict type_obj then do {
         description \<leftarrow> dget type_obj ''description'' (JStr ''Final'');
         completed \<leftarrow> dget type_obj ''completed'' (JBool False);
         Some (Described description, completed)
       } else do {
         description \<leftarrow> dget status_obj ''description'' (JStr ''Final'');
         Some (Described description, JBool True)
       }
     } else Some (Printed status_obj, JBool True)
   }"

text \<open>\<open>next((t for t in teams if t.get('home_away') == side), default)\<close>.\<close>

definition team_on :: "string \<Rightarrow> team_desc list \<Rightarrow> team_desc option" where
  "team_on side teams = find (\<lambda>t. td_home_away t = JStr side) teams"

definition display_name :: "team_desc list \<Rightarrow> json \<Rightarrow> string" where
  "display_name teams is_completed =
     (if length teams \<ge> 2 then
        (let away_team = (case team_on ''away'' teams of Some t \<Rightarrow> t | None \<Rightarrow> teams ! 0);
             home_team = (case team_on ''home'' teams of Some t \<Rightarrow> t | None \<Rightarrow> teams ! 1)
         in if truthy is_completed \<and> (td_score away_team > 0 \<or> td_score home_team > 0)
            then td_abbreviation away_team @ '' '' @ str_int (td_score away_team) @ '', ''
                   @ td_abbreviation home_team @ '' '' @ str_int (td_score home_team)
            else td_abbreviation away_team @ '' @ '' @ td_abbreviation home_team)
      else ''Unknown Game'')"

text \<open>\<open>extract_game_info\<close>. The defaults \<open>filename.split('_')[1]\<close> and
  \<open>filename.split('_')[0]\<close> are evaluated whether they are used or not; a descriptor
  \<open>None\<close> is the empty dict \<open>{}\<close> of the source.\<close>

definition extract_game_info :: "json \<Rightarrow> string \<Rightarrow> game_summary option" where
  "extract_game_info comprehensive_data filename = do {
     box_score \<leftarrow> dget comprehensive_data ''box_score'' (JObj []);
     game_info \<leftarrow> dget box_score ''game_info'' (JObj []);
     team_stats \<leftarrow> dget box_score ''team_stats'' (JObj []);
     items \<leftarrow> dict_items team_stats;
     teams \<leftarrow> team_descs items;
     (status, is_completed) \<leftarrow> game_status game_info;
     let parts = split_on CHR ''_'' filename;
     if length parts < 2 then None
     else do {
       gid \<leftarrow> dget comprehensive_data ''game_id'' (JStr (parts ! 1));
       gdate \<leftarrow> dget comprehensive_data ''date'' (JStr (parts ! 0));
       Some \<lparr>gs_id = gid, gs_date = gdate,
             gs_name = display_name teams is_completed,
             gs_status = status, gs_completed = is_completed,
             gs_home_team = (case team_on ''home'' teams of
                               Some t \<Rightarrow> Some t
                             | None \<Rightarrow> (if teams \<noteq> [] then Some (teams ! 0) else None)),
             gs_away_team = (case team_on ''away'' teams of
                               Some t \<Rightarrow> Some t
                             | None \<Rightarrow> (if length teams > 1 then Some (teams ! 1) else None))\<rparr>
     }
   }"

subsection \<open>Aggregation by weeks and the command line\<close>

record week_data =
  wd_week :: nat
  wd_season :: nat
  wd_games :: "game_summary list"
  wd_player_stats :: player_stats

datatype aggregate_log = No_week string | Error_processing string | Processed string nat

record aggregation =
  weekly_data :: "(nat \<times> week_data) list"
  agg_logged :: "aggregate_log list"

text \<open>\<open>weekly_data[week]\<close> on the \<open>defaultdict\<close>: a missing week is created, last.\<close>

definition default_week :: week_data where
  "default_week = \<lparr>wd_week = 0, wd_season = 2025, wd_games = [], wd_player_stats = no_stats\<rparr>"

definition week_entry :: "(nat \<times> week_data) list \<Rightarrow> nat \<Rightarrow> week_data" where
  "week_entry wd week = (case map_of wd week of Some d \<Rightarrow> d | None \<Rightarrow> default_week)"

definition extend_stats :: "player_stats \<Rightarrow> player_stats \<Rightarrow> player_stats" where
  "extend_stats a b =
     \<lparr>passing = passing a @ passing b, rushing = rushing a @ rushing b,
      receiving = receiving a @ receiving b, defensive = defensive a @ defensive b\<rparr>"

text \<open>
  One turn of the loop over the comprehensive files: the file is its name and what
  \<open>json.load\<close> gives. An exception leaves the turn where it is raised, so what the turn
  has stored by then stays: the week's entry once the week is known, the game summary
  once it is built.
\<close>

definition aggregate_one :: "aggregation \<Rightarrow> string \<times> json option \<Rightarrow> aggregation" where
  "aggregate_one agg file =
     (case file of (filename, content) \<Rightarrow>
        (case content of
           None \<Rightarrow> agg\<lparr>agg_logged := agg_logged agg @ [Error_processing filename]\<rparr>
         | Some data \<Rightarrow>
             (case get_week_for_date (hd (split_on CHR ''_'' filename)) of
                None \<Rightarrow> agg\<lparr>agg_logged := agg_logged agg @ [Error_processing filename]\<rparr>
              | Some None \<Rightarrow> agg\<lparr>agg_logged := agg_logged agg @ [No_week filename]\<rparr>
              | Some (Some week) \<Rightarrow>
                  if week = 0 then agg\<lparr>agg_logged := agg_logged agg @ [No_week filename]\<rparr>
                  else
                    (let entry = (week_entry (weekly_data agg) week)\<lparr>wd_week := week, wd_season := 2025\<rparr>;
                         wd1 = dict_set (weekly_data agg) week entry
                     in (case extract_game_info data filename of
                           None \<Rightarrow> agg\<lparr>weekly_data := wd1,
                                        agg_logged := agg_logged agg @ [Error_processing filename]\<rparr>
                         | Some game_info \<Rightarrow>
                             (let entry2 = entry\<lparr>wd_games := wd_games entry @ [game_info]\<rparr>;
                                  wd2 = dict_set wd1 week entry2
                              in (case extract_player_stats_from_comprehensive data of
                                    None \<Rightarrow> agg\<lparr>weekly_data := wd2,
                                                 agg_logged := agg_logged agg @ [Error_processing filename]\<rparr>
                                  | Some stats \<Rightarrow>
                                      agg\<lparr>weekly_data := dict_set wd2 week
                                              (entry2\<lparr>wd_player_stats :=
                                                 extend_stats (wd_player_stats entry2) stats\<rparr>),
                                          agg_logged := agg_logged agg @ [Processed filename week]\<rparr>)))))))"







section \<open>Notions used by the properties\<close>



text \<open>The files that a run with the given options takes through its loop; \<open>None\<close> when
  the run ends before the loop: the output directory cannot be made, or the glob pattern is
  refused, or scanning the directory raises.\<close>

definition run_files :: "extract_env \<Rightarrow> extract_args \<Rightarrow> source_file list option" where
  "run_files env args =
     (if ext_mkdir_ok env \<and> \<not> glob_raises (glob_pattern (main_date_pattern args))
      then ext_glob env (glob_pattern (main_date_pattern args)) else None)"

text \<open>A date lies in the inclusive range of two date strings of the week table.\<close>

definition in_range :: "date \<Rightarrow> string \<Rightarrow> string \<Rightarrow> bool" where
  "in_range d start_date end_date =
     (case (strptime start_date, strptime end_date) of
        (Some a, Some b) \<Rightarrow> date_le a d \<and> date_le d b
      | _ \<Rightarrow> False)"

text \<open>What a pattern item may consume: the words a successful match assigns to the items
  of a pattern satisfy this, item by item.\<close>

fun item_ok :: "bool \<Rightarrow> item \<Rightarrow> string \<Rightarrow> bool" where
  "item_ok ic (One c) w = (case w of [x] \<Rightarrow> accepts ic c x | _ \<Rightarrow> False)"
| "item_ok ic (Star c) w = list_all (accepts ic c) w"
| "item_ok ic (Plus c) w = (w \<noteq> [] \<and> list_all (accepts ic c) w)"
| "item_ok ic (Lazy c) w = list_all (accepts ic c) w"

text \<open>The shape of an inferred player name: an ASCII letter of either case, a period, at
  most one blank, and a non-empty surname of ASCII letters, apostrophes and hyphens.\<close>

fun name_shape :: "string \<Rightarrow> bool" where
  "name_shape (x # d # rest) =
     (x \<in> set (upper_chars @ lower_chars) \<and> d = CHR ''.''
      \<and> (let surname = (case rest of c # r \<Rightarrow> if c = CHR '' '' then r else rest | [] \<Rightarrow> [])
         in surname \<noteq> [] \<and> list_all (\<lambda>c. c \<in> set name_chars) surname))"
| "name_shape _ = False"

text \<open>The shape as the specification words it: the initial is a capital letter.\<close>

definition capital_name_shape :: "string \<Rightarrow> bool" where
  "capital_name_shape n = (name_shape n \<and> hd n \<in> set upper_chars)"

text \<open>
  A play belongs to a category when its text, lower-cased, contains the category's
  keyword; a play is a scoring play when its \<open>scoring_play\<close> field is true.
\<close>

definition in_category :: "string \<Rightarrow> json \<Rightarrow> bool" where
  "in_category keyword play =
     (case dget play ''text'' (JStr []) of
        Some (JStr t) \<Rightarrow> contains keyword (lower t)
      | _ \<Rightarrow> False)"

definition scoring_flag :: "json \<Rightarrow> bool" where
  "scoring_flag play =
     (case dget play ''scoring_play'' (JBool False) of Some v \<Rightarrow> truthy v | None \<Rightarrow> False)"

text \<open>The name inferred for a play: the inference applied to the play's text.\<close>

definition inferred_player :: "string \<Rightarrow> json \<Rightarrow> string option" where
  "inferred_player play_type play =
     (case dget play ''text'' (JStr []) of
        Some (JStr t) \<Rightarrow> extract_player_from_play_text t play_type
      | _ \<Rightarrow> None)"

text \<open>
  The fields of a play with the \<open>player\<close> field set to a name: the fields before the
  first \<open>player\<close> field, the \<open>player\<close> field with the name, and the fields after it. For a
  play without a \<open>player\<close> field this is the play's fields followed by the new field.
\<close>

definition set_player :: "string \<Rightarrow> (string \<times> json) list \<Rightarrow> (string \<times> json) list" where
  "set_player n kvs =
     takeWhile (\<lambda>kv. fst kv \<noteq> ''player'') kvs @ (''player'', JStr n)
       # tl (dropWhile (\<lambda>kv. fst kv \<noteq> ''player'') kvs)"

text \<open>The element of a derived list that comes from a play: the play itself when no name
  is inferred for it, else the play with its \<open>player\<close> field set to the inferred name.\<close>

definition with_player :: "string \<Rightarrow> json \<Rightarrow> json" where
  "with_player play_type play =
     (case play of
        JObj kvs \<Rightarrow>
          (case inferred_player play_type play of
             Some n \<Rightarrow> JObj (set_player n kvs)
           | None \<Rightarrow> play)
      | _ \<Rightarrow> play)"

text \<open>The key under which a touchdown's attached player enters \<open>processed_players\<close>:
  none when the touchdown has no player or an empty one.\<close>

definition attached_key :: "json \<Rightarrow> json option" where
  "attached_key td =
     (case dget td ''player'' JNull of
        Some player \<Rightarrow> if truthy player then hash_key player else None
      | None \<Rightarrow> None)"

section \<open>Properties of the Event Extractor's record\<close>

subsection \<open>Recomputing a comprehensive record\<close>

text \<open>
  Claim C1, as amended. The comprehensive record of a game is a function of the raw record,
  of the source file's name (which gives the date) and of the wall clock read during the
  call: a second run on the same file returns the record of the first run with
  \<open>processing_timestamp\<close> replaced by the time of the second run, and fails exactly when
  the first run fails. Every other field is the same.
\<close>

theorem process_play_by_play_file_rerun:
  "process_play_by_play_file name content now2 =
     map_option (\<lambda>c. c\<lparr>c_processing_timestamp := now2\<rparr>)
       (process_play_by_play_file name content now1)"
  unfolding process_play_by_play_file_def
  by (simp split: Option.bind_split)

theorem process_play_by_play_file_rerun_witness:
  "process_play_by_play_file ''2025-08-22_401_play_by_play.json''
       (Some (JObj [(''game_info'', JObj [(''game_id'', JStr ''401'')])])) ''2025-08-23T10:00:01''
   = map_option (\<lambda>c. c\<lparr>c_processing_timestamp := ''2025-08-23T10:00:01''\<rparr>)
       (process_play_by_play_file ''2025-08-22_401_play_by_play.json''
          (Some (JObj [(''game_info'', JObj [(''game_id'', JStr ''401'')])])) ''2025-08-23T10:00:00'')"
  by (rule process_play_by_play_file_rerun)

text \<open>Two runs on the same raw record, one second apart, return different records.\<close>

theorem process_play_by_play_file_timestamp_counterexample:
  "process_play_by_play_file ''2025-08-22_401_play_by_play.json''
       (Some (JObj [(''game_info'', JObj [(''game_id'', JStr ''401'')])])) ''2025-08-23T10:00:00''
   \<noteq> process_play_by_play_file ''2025-08-22_401_play_by_play.json''
       (Some (JObj [(''game_info'', JObj [(''game_id'', JStr ''401'')])])) ''2025-08-23T10:00:01''"
  by code_simp

section \<open>Properties of the Weekly Aggregator\<close>

subsection \<open>Week resolution\<close>

lemma week_loop_find:
  "list_all (\<lambda>(w, a, b). strptime a \<noteq> None \<and> strptime b \<noteq> None) ranges \<Longrightarrow>
   week_loop d ranges = Some (map_option fst (find (\<lambda>(w, a, b). in_range d a b) ranges))"
proof (induction ranges)
  case Nil
  then show ?case by simp
next
  case (Cons r ranges)
  obtain w a b where r: "r = (w, a, b)" by (cases r)
  from Cons.prems obtain x y where xy: "strptime a = Some x" "strptime b = Some y"
    by (auto simp: r)
  from Cons.prems have "list_all (\<lambda>(w, a, b). strptime a \<noteq> None \<and> strptime b \<noteq> None) ranges"
    by simp
  from Cons.IH[OF this] show ?case
    by (simp add: r xy in_range_def)
qed

lemma week_ranges_parse:
  "list_all (\<lambda>(w, a, b). strptime a \<noteq> None \<and> strptime b \<noteq> None) week_ranges"
  by code_simp

lemma week_ranges_boundaries:
  "list_all (\<lambda>(week, a, b). get_week_for_date a = Some (Some week)
                \<and> get_week_for_date b = Some (Some week)) week_ranges"
  by code_simp

text \<open>
  Claim C7. For a game date that \<open>strptime\<close> accepts, week resolution returns the first
  week of the table whose inclusive range contains the date, and no week when no range
  does; the start and the end date of every configured range resolve to that range's week;
  and a file whose date lies in no range is dropped: the turn of the aggregation loop
  changes no week and logs the warning.
\<close>

theorem get_week_for_date_first_range:
  assumes "strptime date_str = Some d"
  shows "get_week_for_date date_str
           = Some (map_option fst (find (\<lambda>(week, a, b). in_range d a b) week_ranges))
     \<and> (\<forall>(week, a, b) \<in> set week_ranges.
          get_week_for_date a = Some (Some week) \<and> get_week_for_date b = Some (Some week))
     \<and> (find (\<lambda>(week, a, b). in_range d a b) week_ranges = None
          \<and> hd (split_on CHR ''_'' filename) = date_str \<longrightarrow>
        aggregate_one agg (filename, Some data)
          = agg\<lparr>agg_logged := agg_logged agg @ [No_week filename]\<rparr>)"
proof -
  have a: "get_week_for_date date_str
           = Some (map_option fst (find (\<lambda>(week, a, b). in_range d a b) week_ranges))"
    using assms week_loop_find[OF week_ranges_parse] by (simp add: get_week_for_date_def)
  have b: "\<forall>(week, a, b) \<in> set week_ranges.
          get_week_for_date a = Some (Some week) \<and> get_week_for_date b = Some (Some week)"
    using week_ranges_boundaries by (simp add: list_all_iff)
  have c: "aggregate_one agg (filename, Some data)
          = agg\<lparr>agg_logged := agg_logged agg @ [No_week filename]\<rparr>"
    if "find (\<lambda>(week, a, b). in_range d a b) week_ranges = None"
      and "hd (split_on CHR ''_'' filename) = date_str"
    using that a by (simp add: aggregate_one_def)
  from a b c show ?thesis by blast
qed

theorem get_week_for_date_first_range_witness:
  "strptime ''2025-09-01'' = Some (2025, 9, 1)
   \<and> get_week_for_date ''2025-09-01'' = Some None
   \<and> aggregate_one \<lparr>weekly_data = [], agg_logged = []\<rparr> (''2025-09-01_401_complete.json'', Some JNull)
       = \<lparr>weekly_data = [], agg_logged = [No_week ''2025-09-01_401_complete.json'']\<rparr>
   \<and> get_week_for_date ''2025-08-12'' = Some (Some 2)
   \<and> get_week_for_date ''2025-08-18'' = Some (Some 2)"
proof -
  have p: "strptime ''2025-09-01'' = Some (2025, 9, 1)" by code_simp
  have f: "find (\<lambda>(week, a, b). in_range (2025, 9, 1) a b) week_ranges = None" by code_simp
  have h: "hd (split_on CHR ''_'' ''2025-09-01_401_complete.json'') = ''2025-09-01''" by code_simp
  have m: "(2, ''2025-08-12'', ''2025-08-18'') \<in> set week_ranges" by (simp add: week_ranges_def)
  note t = get_week_for_date_first_range[OF p, of "''2025-09-01_401_complete.json''"
      "\<lparr>weekly_data = [], agg_logged = []\<rparr>" JNull]
  from t have a: "get_week_for_date ''2025-09-01'' = Some None" by (simp only: f option.map)
  from t f h have c: "aggregate_one \<lparr>weekly_data = [], agg_logged = []\<rparr>
        (''2025-09-01_401_complete.json'', Some JNull)
       = \<lparr>weekly_data = [], agg_logged = [No_week ''2025-09-01_401_complete.json'']\<rparr>"
    by simp
  from t m have b: "get_week_for_date ''2025-08-12'' = Some (Some 2)
      \<and> get_week_for_date ''2025-08-18'' = Some (Some 2)"
    by blast
  from p a b c show ?thesis by blast
qed

subsection \<open>Teams without a home or away flag\<close>

text \<open>
  Claim C10. For a comprehensive record whose team statistics list exactly two teams,
  neither flagged \<open>home\<close> or \<open>away\<close>, the display name of the summary puts the first-listed
  team in the away position (\<open>FIRST @ SECOND\<close>, or \<open>FIRST score, SECOND score\<close> for a
  completed game with a score), while the descriptors returned name that same first team
  as \<open>home_team\<close> and the second as \<open>away_team\<close>.
\<close>

theorem extract_game_info_unflagged_teams:
  assumes g: "extract_game_info comprehensive_data filename = Some g"
    and box: "dget comprehensive_data ''box_score'' (JObj []) = Some box"
    and stats: "dget box ''team_stats'' (JObj []) = Some (JObj [(a1, s1), (a2, s2)])"
    and sc1: "dget s1 ''score'' (JInt 0) = Some v1" "py_int v1 = Some sc1"
    and sc2: "dget s2 ''score'' (JInt 0) = Some v2" "py_int v2 = Some sc2"
    and h1: "dget s1 ''home_away'' (JStr ''unknown'') = Some h1"
      "h1 \<noteq> JStr ''home''" "h1 \<noteq> JStr ''away''"
    and h2: "dget s2 ''home_away'' (JStr ''unknown'') = Some h2"
      "h2 \<noteq> JStr ''home''" "h2 \<noteq> JStr ''away''"
  shows "gs_name g =
           (if truthy (gs_completed g) \<and> (sc1 > 0 \<or> sc2 > 0)
            then a1 @ '' '' @ str_int sc1 @ '', '' @ a2 @ '' '' @ str_int sc2
            else a1 @ '' @ '' @ a2)
       \<and> gs_home_team g = Some \<lparr>td_name = a1, td_abbreviation = a1, td_score = sc1, td_home_away = h1\<rparr>
       \<and> gs_away_team g = Some \<lparr>td_name = a2, td_abbreviation = a2, td_score = sc2, td_home_away = h2\<rparr>"
proof -
  let ?t1 = "\<lparr>td_name = a1, td_abbreviation = a1, td_score = sc1, td_home_away = h1\<rparr>"
  let ?t2 = "\<lparr>td_name = a2, td_abbreviation = a2, td_score = sc2, td_home_away = h2\<rparr>"
  have teams: "team_descs [(a1, s1), (a2, s2)] = Some [?t1, ?t2]"
    using sc1 sc2 h1(1) h2(1) by simp
  have away: "team_on ''away'' [?t1, ?t2] = None" and home: "team_on ''home'' [?t1, ?t2] = None"
    using h1 h2 by (simp_all add: team_on_def)
  show ?thesis
    using g box stats teams
    by (cases box)
       (auto simp: extract_game_info_def away home display_name_def Let_def
             split: Option.bind_splits if_splits)
qed

theorem extract_game_info_unflagged_teams_witness:
  "extract_game_info
     (JObj [(''game_id'', JStr ''401''), (''date'', JStr ''2025-08-22''),
        (''box_score'', JObj [(''game_info'', JObj [(''status'', JObj [])]),
           (''team_stats'', JObj [(''DAL'', JObj [(''score'', JInt 17)]),
                                  (''PHI'', JObj [(''score'', JInt 20)])])])])
     ''2025-08-22_401_complete.json''
   = Some \<lparr>gs_id = JStr ''401'', gs_date = JStr ''2025-08-22'', gs_name = ''DAL @ PHI'',
       gs_status = Described (JStr ''Final''), gs_completed = JBool False,
       gs_home_team = Some \<lparr>td_name = ''DAL'', td_abbreviation = ''DAL'', td_score = 17,
          td_home_away = JStr ''unknown''\<rparr>,
       gs_away_team = Some \<lparr>td_name = ''PHI'', td_abbreviation = ''PHI'', td_score = 20,
          td_home_away = JStr ''unknown''\<rparr>\<rparr>
   \<and> gs_name \<lparr>gs_id = JStr ''401'', gs_date = JStr ''2025-08-22'', gs_name = ''DAL @ PHI'',
       gs_status = Described (JStr ''Final''), gs_completed = JBool False,
       gs_home_team = Some \<lparr>td_name = ''DAL'', td_abbreviation = ''DAL'', td_score = 17,
          td_home_away = JStr ''unknown''\<rparr>,
       gs_away_team = Some \<lparr>td_name = ''PHI'', td_abbreviation = ''PHI'', td_score = 20,
          td_home_away = JStr ''unknown''\<rparr>\<rparr> = ''DAL'' @ '' @ '' @ ''PHI''"
proof -
  let ?c = "JObj [(''game_id'', JStr ''401''), (''date'', JStr ''2025-08-22''),
        (''box_score'', JObj [(''game_info'', JObj [(''status'', JObj [])]),
           (''team_stats'', JObj [(''DAL'', JObj [(''score'', JInt 17)]),
                                  (''PHI'', JObj [(''score'', JInt 20)])])])]"
  let ?g = "\<lparr>gs_id = JStr ''401'', gs_date = JStr ''2025-08-22'', gs_name = ''DAL @ PHI'',
       gs_status = Described (JStr ''Final''), gs_completed = JBool False,
       gs_home_team = Some \<lparr>td_name = ''DAL'', td_abbreviation = ''DAL'', td_score = 17,
          td_home_away = JStr ''unknown''\<rparr>,
       gs_away_team = Some \<lparr>td_name = ''PHI'', td_abbreviation = ''PHI'', td_score = 20,
          td_home_away = JStr ''unknown''\<rparr>\<rparr>"
  have g: "extract_game_info ?c ''2025-08-22_401_complete.json'' = Some ?g" by code_simp
  have box: "dget ?c ''box_score'' (JObj [])
      = Some (JObj [(''game_info'', JObj [(''status'', JObj [])]),
           (''team_stats'', JObj [(''DAL'', JObj [(''score'', JInt 17)]),
                                  (''PHI'', JObj [(''score'', JInt 20)])])])"
    by simp
  have stats: "dget (JObj [(''game_info'', JObj [(''status'', JObj [])]),
           (''team_stats'', JObj [(''DAL'', JObj [(''score'', JInt 17)]),
                                  (''PHI'', JObj [(''score'', JInt 20)])])]) ''team_stats'' (JObj [])
      = Some (JObj [(''DAL'', JObj [(''score'', JInt 17)]), (''PHI'', JObj [(''score'', JInt 20)])])"
    by simp
  have "gs_name ?g =
           (if truthy (gs_completed ?g) \<and> ((17::int) > 0 \<or> (20::int) > 0)
            then ''DAL'' @ '' '' @ str_int 17 @ '', '' @ ''PHI'' @ '' '' @ str_int 20
            else ''DAL'' @ '' @ '' @ ''PHI'')"
    using extract_game_info_unflagged_teams[OF g box stats, of "JInt 17" 17 "JInt 20" 20
        "JStr ''unknown''" "JStr ''unknown''"]
    by simp
  then have "gs_name ?g = ''DAL'' @ '' @ '' @ ''PHI''" by simp
  with g show ?thesis by blast
qed

section \<open>Facts about the matcher and about inferred names\<close>

lemma rx_match_sound:
  "rx_match ic items s = Some ws \<Longrightarrow> list_all2 (item_ok ic) items ws \<and> prefix (concat ws) s"
proof (induction ic items s arbitrary: ws rule: rx_match.induct)
  case (1 ic s)
  then show ?case by simp
next
  case (2 ic c r s)
  then show ?case by (auto split: list.splits if_splits)
next
  case (3 ic c r s)
  show ?case
  proof (cases s)
    case Nil
    with 3 show ?thesis by auto
  next
    case (Cons x xs)
    show ?thesis
    proof (cases "accepts ic c x")
      case False
      with 3 Cons show ?thesis by auto
    next
      case True
      show ?thesis
      proof (cases "rx_match ic (Star c # r) xs")
        case None
        with 3 Cons True show ?thesis by auto
      next
        case (Some vs)
        show ?thesis
        proof (cases vs)
          case Nil
          with 3 Cons True Some show ?thesis by auto
        next
          case (Cons v vs')
          with "3.IH"(2)[OF \<open>s = x # xs\<close> True Some] "3.prems" \<open>s = x # xs\<close> True Some
          show ?thesis by auto
        qed
      qed
    qed
  qed
next
  case (4 ic c r s)
  show ?case
  proof (cases s)
    case Nil
    with 4 show ?thesis by auto
  next
    case (Cons x xs)
    show ?thesis
    proof (cases "accepts ic c x")
      case False
      with 4 Cons show ?thesis by auto
    next
      case True
      show ?thesis
      proof (cases "rx_match ic (Star c # r) xs")
        case None
        with 4 Cons True show ?thesis by auto
      next
        case (Some vs)
        show ?thesis
        proof (cases vs)
          case Nil
          with 4 Cons True Some show ?thesis by auto
        next
          case (Cons v vs')
          with "4.IH"[OF \<open>s = x # xs\<close> True Some] "4.prems" \<open>s = x # xs\<close> True Some
          show ?thesis by auto
        qed
      qed
    qed
  qed
next
  case (5 ic c r s)
  show ?case
  proof (cases "rx_match ic r s")
    case (Some vs)
    with 5 show ?thesis by auto
  next
    case None
    show ?thesis
    proof (cases s)
      case Nil
      with 5 None show ?thesis by auto
    next
      case (Cons x xs)
      show ?thesis
      proof (cases "accepts ic c x")
        case False
        with 5 None Cons show ?thesis by auto
      next
        case True
        show ?thesis
        proof (cases "rx_match ic (Lazy c # r) xs")
          case None
          with 5 \<open>rx_match ic r s = None\<close> Cons True show ?thesis by auto
        next
          case (Some vs)
          show ?thesis
          proof (cases vs)
            case Nil
            with 5 \<open>rx_match ic r s = None\<close> Cons True Some show ?thesis by auto
          next
            case (Cons v vs')
            with "5.IH"(2)[OF \<open>rx_match ic r s = None\<close> \<open>s = x # xs\<close> True Some] "5.prems"
              \<open>rx_match ic r s = None\<close> \<open>s = x # xs\<close> True Some
            show ?thesis by auto
          qed
        qed
      qed
    qed
  qed
qed

lemma search_from_sound:
  "search_from ic items s = Some ws \<Longrightarrow> list_all2 (item_ok ic) items ws"
  by (induction ic items s rule: search_from.induct)
     (auto dest: rx_match_sound split: option.splits)


lemma to_lower_cases:
  "to_lower c = c \<or> (c \<in> set upper_chars \<and> to_lower c \<in> set lower_chars)
     \<or> (c \<in> set latin_upper \<and> to_lower c \<in> set latin_lower)"
proof (cases "map_of (zip (upper_chars @ latin_upper) (lower_chars @ latin_lower)) c")
  case None
  then show ?thesis by (simp add: to_lower_def)
next
  case (Some l)
  have len: "length upper_chars = length lower_chars"
    by (simp add: upper_chars_def lower_chars_def)
  from Some have "(c, l) \<in> set (zip (upper_chars @ latin_upper) (lower_chars @ latin_lower))"
    by (rule map_of_SomeD)
  then have "(c, l) \<in> set (zip upper_chars lower_chars) \<or> (c, l) \<in> set (zip latin_upper latin_lower)"
    using len by simp
  then have "(c \<in> set upper_chars \<and> l \<in> set lower_chars) \<or> (c \<in> set latin_upper \<and> l \<in> set latin_lower)"
    by (auto elim: in_set_zipE)
  with Some show ?thesis by (simp add: to_lower_def)
qed

lemma latin_lower_not_name: "c \<in> set latin_lower \<Longrightarrow> c \<notin> set name_chars \<and> c \<noteq> CHR ''.''"
  by (auto simp: latin_lower_def name_chars_def upper_chars_def lower_chars_def)

lemma to_lower_name_chars: "map to_lower name_chars = lower_chars @ lower_chars @ [CHR 0x27, CHR ''-'']"
  by code_simp

lemma to_lower_upper_chars: "map to_lower upper_chars = lower_chars"
  by code_simp

lemma to_lower_dot: "to_lower CHR ''.'' = CHR ''.''"
  by code_simp

lemma in_set_name_chars: "in_set ic name_chars c \<Longrightarrow> c \<in> set name_chars"
proof (cases ic)
  case False
  assume "in_set ic name_chars c"
  with False show ?thesis by (simp add: in_set_def)
next
  case True
  assume "in_set ic name_chars c"
  with True have l: "to_lower c \<in> set (lower_chars @ [CHR 0x27, CHR ''-''])"
    by (auto simp: in_set_def to_lower_name_chars)
  then have n: "to_lower c \<in> set name_chars" by (auto simp: name_chars_def)
  from to_lower_cases[of c] show ?thesis
  proof (elim disjE conjE)
    assume "to_lower c = c"
    with n show ?thesis by simp
  next
    assume "c \<in> set upper_chars"
    then show ?thesis by (simp add: name_chars_def)
  next
    assume "to_lower c \<in> set latin_lower"
    with n latin_lower_not_name show ?thesis by blast
  qed
qed

lemma in_set_upper_chars: "in_set ic upper_chars c \<Longrightarrow> c \<in> set (upper_chars @ lower_chars)"
proof (cases ic)
  case False
  assume "in_set ic upper_chars c"
  with False show ?thesis by (simp add: in_set_def)
next
  case True
  assume "in_set ic upper_chars c"
  with True have l: "to_lower c \<in> set lower_chars"
    by (simp add: in_set_def to_lower_upper_chars)
  then have n: "to_lower c \<in> set name_chars" by (simp add: name_chars_def)
  from to_lower_cases[of c] show ?thesis
  proof (elim disjE conjE)
    assume "to_lower c = c"
    with l show ?thesis by simp
  next
    assume "c \<in> set upper_chars"
    then show ?thesis by simp
  next
    assume "to_lower c \<in> set latin_lower"
    with n latin_lower_not_name show ?thesis by blast
  qed
qed

lemma dot_not_letter: "CHR ''.'' \<notin> set upper_chars" "CHR ''.'' \<notin> set lower_chars"
  by (simp_all add: upper_chars_def lower_chars_def)

lemma accepts_dot: "accepts ic (Lit CHR ''.'') y \<Longrightarrow> y = CHR ''.''"
proof (cases ic)
  case False
  assume "accepts ic (Lit CHR ''.'') y"
  with False show ?thesis by simp
next
  case True
  assume "accepts ic (Lit CHR ''.'') y"
  with True have l: "to_lower y = CHR ''.''" by (simp add: to_lower_dot)
  from to_lower_cases[of y] show ?thesis
  proof (elim disjE conjE)
    assume "to_lower y = y"
    with l show ?thesis by simp
  next
    assume "to_lower y \<in> set lower_chars"
    with l dot_not_letter show ?thesis by simp
  next
    assume "to_lower y \<in> set latin_lower"
    with l latin_lower_not_name show ?thesis by blast
  qed
qed

lemma name_chars_not_space: "c \<in> set name_chars \<Longrightarrow> \<not> is_space c"
  by (auto simp: name_chars_def upper_chars_def lower_chars_def is_space_def space_chars_def)

lemma letter_not_space: "c \<in> set (upper_chars @ lower_chars) \<Longrightarrow> \<not> is_space c"
  by (auto simp: upper_chars_def lower_chars_def is_space_def space_chars_def)

lemma strip_id: "\<not> is_space x \<Longrightarrow> \<not> is_space (last (x # s)) \<Longrightarrow> strip (x # s) = x # s"
proof -
  assume a: "\<not> is_space x" and b: "\<not> is_space (last (x # s))"
  obtain y ys where r: "rev (x # s) = y # ys" by (cases "rev (x # s)") auto
  have "y = last (x # s)" using r by (metis hd_rev list.sel(1))
  with b have "dropWhile is_space (y # ys) = y # ys" by simp
  then have d: "dropWhile is_space (rev (x # s)) = rev (x # s)" by (simp only: r)
  have "dropWhile is_space (x # s) = x # s" using a by simp
  then have "strip (x # s) = rev (dropWhile is_space (rev (x # s)))" by (simp only: strip_def)
  also have "\<dots> = rev (rev (x # s))" by (simp only: d)
  finally show ?thesis by simp
qed

lemma squeeze_no_space: "list_all (\<lambda>c. \<not> is_space c) s \<Longrightarrow> squeeze b s = s"
  by (induction s arbitrary: b) auto

lemma squeeze_run: "list_all is_space w \<Longrightarrow> list_all (\<lambda>c. \<not> is_space c) s \<Longrightarrow> squeeze True (w @ s) = s"
  by (induction w) (auto simp: squeeze_no_space)

lemma squeeze_run_start:
  "list_all is_space w \<Longrightarrow> list_all (\<lambda>c. \<not> is_space c) s \<Longrightarrow>
   squeeze False (w @ s) = (if w = [] then s else CHR '' '' # s)"
  by (cases w) (auto simp: squeeze_no_space squeeze_run)

lemma first_match_Some:
  "first_match ps text = Some n \<Longrightarrow>
   \<exists>i g. i < length ps \<and> (\<forall>j<i. re_search True (ps ! j) text = None)
        \<and> re_search True (ps ! i) text = Some g \<and> n = collapse_ws (strip g)"
proof (induction ps)
  case Nil
  then show ?case by simp
next
  case (Cons p ps)
  show ?case
  proof (cases "re_search True p text")
    case (Some g)
    with Cons.prems have "n = collapse_ws (strip g)" by simp
    with Some show ?thesis by (intro exI[of _ 0] exI[of _ g]) simp
  next
    case None
    with Cons obtain i g where i: "i < length ps" "\<forall>j<i. re_search True (ps ! j) text = None"
      "re_search True (ps ! i) text = Some g" "n = collapse_ws (strip g)"
      by auto
    have "\<forall>j<Suc i. re_search True ((p # ps) ! j) text = None"
      using None i(2) by (auto simp: less_Suc_eq_0_disj)
    with i show ?thesis by (intro exI[of _ "Suc i"] exI[of _ g]) simp
  qed
qed

lemma re_search_group:
  assumes "re_search ic rx s = Some g"
  shows "\<exists>gs. list_all2 (item_ok ic) (grp rx) gs \<and> g = concat gs"
proof -
  from assms obtain ws where ws: "list_all2 (item_ok ic) (rx_items rx) ws"
      and g: "g = concat (take (length (grp rx)) (drop (length (pre rx)) ws))"
    by (auto simp: re_search_def dest: rx_match_sound search_from_sound split: if_splits)
  from ws obtain us vs where uv: "ws = us @ vs" "list_all2 (item_ok ic) (pre rx) us"
      "list_all2 (item_ok ic) (grp rx @ post rx) vs"
    by (auto simp: rx_items_def list_all2_append1)
  from uv(3) obtain gs ts where gt: "vs = gs @ ts" "list_all2 (item_ok ic) (grp rx) gs"
    by (auto simp: list_all2_append1)
  have "length us = length (pre rx)" "length gs = length (grp rx)"
    using uv(2) gt(2) by (auto dest: list_all2_lengthD)
  then have "take (length (grp rx)) (drop (length (pre rx)) ws) = gs"
    by (simp add: uv(1) gt(1))
  with g gt(2) show ?thesis by auto
qed

lemma name_grp_capture:
  assumes "list_all2 (item_ok ic) name_grp gs"
  shows "\<exists>x w su. concat gs = x # CHR ''.'' # w @ su \<and> x \<in> set (upper_chars @ lower_chars)
           \<and> list_all is_space w \<and> su \<noteq> [] \<and> list_all (\<lambda>c. c \<in> set name_chars) su"
proof -
  from assms obtain g1 g2 g3 g4 where gs: "gs = [g1, g2, g3, g4]"
      and ok: "item_ok ic (One (OneOf upper_chars)) g1" "item_ok ic (One (Lit CHR ''.'')) g2"
        "item_ok ic (Star Space) g3" "item_ok ic (Plus (OneOf name_chars)) g4"
    by (auto simp: name_grp_def list_all2_Cons1)
  from ok(1) obtain x where x: "g1 = [x]" "in_set ic upper_chars x"
    by (auto split: list.splits)
  from ok(2) obtain y where y: "g2 = [y]" "accepts ic (Lit CHR ''.'') y"
    by (auto split: list.splits)
  from y(2) have yd: "y = CHR ''.''" by (rule accepts_dot)
  from ok(3) have w: "list_all is_space g3" by (simp add: list_all_iff)
  from ok(4) have su: "g4 \<noteq> []" "list_all (\<lambda>c. c \<in> set name_chars) g4"
    by (auto simp: list_all_iff dest: in_set_name_chars)
  show ?thesis
    using x(1) in_set_upper_chars[OF x(2)] y(1) yd w su
    by (intro exI[of _ x] exI[of _ g3] exI[of _ g4]) (simp add: gs)
qed

lemma normalized_name_shape:
  assumes "x \<in> set (upper_chars @ lower_chars)" "list_all is_space w" "su \<noteq> []"
    "list_all (\<lambda>c. c \<in> set name_chars) su"
  shows "name_shape (collapse_ws (strip (x # CHR ''.'' # w @ su)))"
proof -
  have nsx: "\<not> is_space x" using assms(1) by (rule letter_not_space)
  have nsd: "\<not> is_space CHR ''.''" by (simp add: is_space_def space_chars_def)
  have nssu: "list_all (\<lambda>c. \<not> is_space c) su"
    using assms(4) by (auto simp: list_all_iff dest: name_chars_not_space)
  have "last (x # CHR ''.'' # w @ su) = last su" using assms(3) by simp
  moreover have "\<not> is_space (last su)"
    using nssu assms(3) by (simp add: list_all_iff)
  ultimately have st: "strip (x # CHR ''.'' # w @ su) = x # CHR ''.'' # w @ su"
    using nsx by (intro strip_id) simp_all
  have cw: "collapse_ws (x # CHR ''.'' # w @ su) = x # CHR ''.'' # (if w = [] then su else CHR '' '' # su)"
    using nsx nsd squeeze_run_start[OF assms(2) nssu] by (simp add: collapse_ws_def)
  obtain c r where su: "su = c # r" using assms(3) by (cases su) auto
  have "c \<noteq> CHR '' ''"
    using nssu by (auto simp: su is_space_def space_chars_def)
  then have "name_shape (x # CHR ''.'' # (if w = [] then su else CHR '' '' # su))"
    using assms(1,4) by (simp add: su)
  then show ?thesis by (simp only: st cw)
qed

lemma patterns_grp: "patterns_for t = Some ps \<Longrightarrow> p \<in> set ps \<Longrightarrow> grp p = name_grp"
  by (auto simp: patterns_for_def touchdown_patterns_def interception_patterns_def
        fumble_patterns_def split: if_splits)

lemma first_match_complete:
  "i < length ps \<Longrightarrow> \<forall>j<i. re_search True (ps ! j) text = None \<Longrightarrow>
   re_search True (ps ! i) text = Some g \<Longrightarrow> first_match ps text = Some (collapse_ws (strip g))"
proof (induction ps arbitrary: i)
  case Nil
  then show ?case by simp
next
  case (Cons p ps)
  show ?case
  proof (cases i)
    case 0
    with Cons.prems show ?thesis by simp
  next
    case (Suc k)
    with Cons.prems have p: "re_search True p text = None" by auto
    have "k < length ps" using Cons.prems(1) Suc by simp
    moreover have "\<forall>j<k. re_search True (ps ! j) text = None"
      using Cons.prems(2) Suc by auto
    moreover have "re_search True (ps ! k) text = Some g" using Cons.prems(3) Suc by simp
    ultimately have "first_match ps text = Some (collapse_ws (strip g))" by (rule Cons.IH)
    with p show ?thesis by simp
  qed
qed

lemma extract_player_name_shape:
  assumes "extract_player_from_play_text text play_type = Some n"
  shows "name_shape n \<and> (\<exists>patterns i g. patterns_for play_type = Some patterns
           \<and> i < length patterns \<and> (\<forall>j<i. re_search True (patterns ! j) text = None)
           \<and> re_search True (patterns ! i) text = Some g \<and> n = collapse_ws (strip g))"
proof -
  from assms obtain ps where ps: "patterns_for play_type = Some ps" "first_match ps text = Some n"
    by (auto simp: extract_player_from_play_text_def split: if_splits option.splits)
  from first_match_Some[OF ps(2)] obtain i g where i: "i < length ps"
      "\<forall>j<i. re_search True (ps ! j) text = None" "re_search True (ps ! i) text = Some g"
      "n = collapse_ws (strip g)"
    by blast
  have "grp (ps ! i) = name_grp" using ps(1) i(1) by (auto intro: patterns_grp)
  with re_search_group[OF i(3)] obtain gs where gs: "list_all2 (item_ok True) name_grp gs" "g = concat gs"
    by auto
  from name_grp_capture[OF gs(1)] obtain x w su where
    c: "concat gs = x # CHR ''.'' # w @ su" "x \<in> set (upper_chars @ lower_chars)"
      "list_all is_space w" "su \<noteq> []" "list_all (\<lambda>c. c \<in> set name_chars) su"
    by blast
  have "name_shape n"
    using normalized_name_shape[OF c(2-5)] by (simp add: i(4) gs(2) c(1))
  with ps(1) i show ?thesis by blast
qed

section \<open>Properties of the derived event lists\<close>

subsection \<open>What a derived list holds\<close>

lemma dict_set_takeWhile:
  "dict_set kvs k v
     = takeWhile (\<lambda>kv. fst kv \<noteq> k) kvs @ (k, v) # tl (dropWhile (\<lambda>kv. fst kv \<noteq> k) kvs)"
  by (induction kvs) auto

lemma name_shape_nonempty: "name_shape n \<Longrightarrow> n \<noteq> []"
  by (cases n) auto

lemma attach_player_with_player:
  assumes "dget (JObj kvs) ''text'' (JStr []) = Some (JStr tx)"
  shows "attach_player play_type tx kvs = with_player play_type (JObj kvs)"
proof (cases "extract_player_from_play_text tx play_type")
  case None
  with assms show ?thesis by (simp add: attach_player_def with_player_def inferred_player_def)
next
  case (Some n)
  from extract_player_name_shape[OF Some] have "n \<noteq> []" by (auto dest: name_shape_nonempty)
  with Some assms show ?thesis
    by (simp add: attach_player_def with_player_def inferred_player_def set_player_def
          dict_set_takeWhile)
qed

lemma with_player_None: "inferred_player play_type play = None \<Longrightarrow> with_player play_type play = play"
  by (cases play) (simp_all add: with_player_def)

lemma extract_events_map:
  "extract_events keyword play_type plays = Some evs \<Longrightarrow>
   evs = map (with_player play_type) (filter (in_category keyword) plays)"
proof (induction plays arbitrary: evs)
  case Nil
  then show ?case by simp
next
  case (Cons play plays)
  from Cons.prems obtain tx rest where
    t: "dget play ''text'' (JStr []) = Some (JStr tx)"
    and r: "extract_events keyword play_type plays = Some rest"
    and e: "evs = (if contains keyword (lower tx)
           then (case play of JObj kvs \<Rightarrow> attach_player play_type tx kvs # rest | _ \<Rightarrow> rest)
           else rest)"
    by (auto split: Option.bind_splits elim!: as_str.elims)
  from t obtain kvs where play: "play = JObj kvs" by (cases play) auto
  have cat: "in_category keyword play = contains keyword (lower tx)"
    using t by (simp add: in_category_def)
  have att: "attach_player play_type tx kvs = with_player play_type play"
    using attach_player_with_player[of kvs tx play_type] t by (simp add: play)
  from Cons.IH[OF r] have "rest = map (with_player play_type) (filter (in_category keyword) plays)" .
  with e cat att show ?case by (simp add: play)
qed

lemma extract_scoring_plays_filter:
  "extract_scoring_plays plays = Some sp \<Longrightarrow> sp = filter scoring_flag plays"
proof (induction plays arbitrary: sp)
  case Nil
  then show ?case by simp
next
  case (Cons play plays)
  from Cons.prems obtain flag rest where
    f: "dget play ''scoring_play'' (JBool False) = Some flag"
    and r: "extract_scoring_plays plays = Some rest"
    and e: "sp = (if truthy flag then play # rest else rest)"
    by (auto split: Option.bind_splits)
  from Cons.IH[OF r] f e show ?case by (simp add: scoring_flag_def)
qed

subsection \<open>Player-name inference\<close>

text \<open>
  Claim C4, as amended. For every play text and event category, player-name inference
  tries that category's patterns in declared order: it returns a name exactly when the
  text is not empty and some pattern of the category matches, and the name is then the
  group of the first pattern that matches, trimmed and whitespace-normalized. A returned
  name has the shape initial letter, period, at most one blank, surname. A play of a
  category for which no name is inferred is still retained in its category list, as it
  is: no \<open>player\<close> field is attached to it.
\<close>

theorem extract_player_from_play_text_first_match:
  "(extract_player_from_play_text play_text play_type = Some n)
     = (play_text \<noteq> [] \<and> (\<exists>patterns i g. patterns_for play_type = Some patterns
           \<and> i < length patterns \<and> (\<forall>j<i. re_search True (patterns ! j) play_text = None)
           \<and> re_search True (patterns ! i) play_text = Some g \<and> n = collapse_ws (strip g)))
   \<and> (extract_player_from_play_text play_text play_type = Some n \<longrightarrow> name_shape n)
   \<and> (extract_events keyword play_type plays = Some evs \<and> play \<in> set plays
        \<and> in_category keyword play \<and> inferred_player play_type play = None \<longrightarrow>
      play \<in> set evs \<and> with_player play_type play = play)"
proof -
  have a1: "play_text \<noteq> [] \<and> (\<exists>patterns i g. patterns_for play_type = Some patterns
           \<and> i < length patterns \<and> (\<forall>j<i. re_search True (patterns ! j) play_text = None)
           \<and> re_search True (patterns ! i) play_text = Some g \<and> n = collapse_ws (strip g))"
    if "extract_player_from_play_text play_text play_type = Some n"
    using extract_player_name_shape[OF that] that
    by (auto simp: extract_player_from_play_text_def split: if_splits)
  have a2: "extract_player_from_play_text play_text play_type = Some n"
    if "play_text \<noteq> []" "patterns_for play_type = Some patterns" "i < length patterns"
      "\<forall>j<i. re_search True (patterns ! j) play_text = None"
      "re_search True (patterns ! i) play_text = Some g" "n = collapse_ws (strip g)"
    for patterns i g
    using first_match_complete[OF that(3,4,5)] that(1,2,6)
    by (simp add: extract_player_from_play_text_def)
  have a: "(extract_player_from_play_text play_text play_type = Some n)
     = (play_text \<noteq> [] \<and> (\<exists>patterns i g. patterns_for play_type = Some patterns
           \<and> i < length patterns \<and> (\<forall>j<i. re_search True (patterns ! j) play_text = None)
           \<and> re_search True (patterns ! i) play_text = Some g \<and> n = collapse_ws (strip g)))"
    using a1 a2 by blast
  have b: "name_shape n" if "extract_player_from_play_text play_text play_type = Some n"
    using extract_player_name_shape[OF that] by simp
  have c: "play \<in> set evs \<and> with_player play_type play = play"
    if "extract_events keyword play_type plays = Some evs" "play \<in> set plays"
      "in_category keyword play" "inferred_player play_type play = None"
  proof -
    have w: "with_player play_type play = play"
      using that(4) by (rule with_player_None)
    have "play \<in> set (filter (in_category keyword) plays)" using that(2,3) by simp
    then have "with_player play_type play \<in> set (map (with_player play_type) (filter (in_category keyword) plays))"
      by simp
    with extract_events_map[OF that(1)] w show ?thesis by simp
  qed
  from a b c show ?thesis by blast
qed

theorem extract_player_from_play_text_first_match_witness:
  "extract_player_from_play_text (''J.'' @ [CHR 0xA0] @ ''Smith 5 yard run for a touchdown'') ''touchdown''
     = Some ''J. Smith''
   \<and> name_shape ''J. Smith''
   \<and> re_search True (touchdown_patterns ! 0) (''J.'' @ [CHR 0xA0] @ ''Smith 5 yard run for a touchdown'') = None
   \<and> re_search True (touchdown_patterns ! 1) (''J.'' @ [CHR 0xA0] @ ''Smith 5 yard run for a touchdown'')
       = Some (''J.'' @ [CHR 0xA0] @ ''Smith'')
   \<and> extract_events ''touchdown'' ''touchdown'' [JObj [(''text'', JStr ''Touchdown by the defense'')]]
       = Some [JObj [(''text'', JStr ''Touchdown by the defense'')]]
   \<and> JObj [(''text'', JStr ''Touchdown by the defense'')]
       \<in> set [JObj [(''text'', JStr ''Touchdown by the defense'')]]"
proof -
  let ?t = "''J.'' @ [CHR 0xA0] @ ''Smith 5 yard run for a touchdown''"
  let ?p = "JObj [(''text'', JStr ''Touchdown by the defense'')]"
  have p0: "re_search True (touchdown_patterns ! 0) ?t = None" by code_simp
  have p1: "re_search True (touchdown_patterns ! 1) ?t = Some (''J.'' @ [CHR 0xA0] @ ''Smith'')"
    by code_simp
  have n: "''J. Smith'' = collapse_ws (strip (''J.'' @ [CHR 0xA0] @ ''Smith''))" by code_simp
  have ps: "patterns_for ''touchdown'' = Some touchdown_patterns" by (simp add: patterns_for_def)
  have len: "1 < length touchdown_patterns" by (simp add: touchdown_patterns_def)
  have before: "\<forall>j<1. re_search True (touchdown_patterns ! j) ?t = None" using p0 by simp
  have ne: "?t \<noteq> []" by simp
  note t = extract_player_from_play_text_first_match[of ?t "''touchdown''" "''J. Smith''"
      "''touchdown''" "[?p]" "[?p]" ?p]
  have e1: "extract_player_from_play_text ?t ''touchdown'' = Some ''J. Smith''"
    using t ne ps len before p1 n by blast
  with t have s: "name_shape ''J. Smith''" by blast
  have ev: "extract_events ''touchdown'' ''touchdown'' [?p] = Some [?p]" by code_simp
  have cat: "in_category ''touchdown'' ?p" by code_simp
  have inf: "inferred_player ''touchdown'' ?p = None" by code_simp
  have m: "?p \<in> set [?p]" using t ev cat inf by simp
  from e1 s p0 p1 ev m show ?thesis by blast
qed

text \<open>
  The claim as worded fails in two ways. A lower-case initial is captured as well, so a
  name returned need not have a capital initial; and a play for which no name is inferred
  is retained with every field it has, a \<open>player\<close> field of the raw record included.
\<close>

theorem extract_player_lowercase_initial_counterexample:
  "extract_player_from_play_text ''j.smith 5 yard run for a touchdown'' ''touchdown'' = Some ''j.smith''
   \<and> \<not> capital_name_shape ''j.smith''
   \<and> extract_player_from_play_text ''Touchdown by the defense'' ''touchdown'' = None
   \<and> extract_touchdowns
       [JObj [(''text'', JStr ''Touchdown by the defense''), (''player'', JStr ''Bob'')]]
     = Some [JObj [(''text'', JStr ''Touchdown by the defense''), (''player'', JStr ''Bob'')]]"
  by code_simp

subsection \<open>The derived lists and the play list\<close>

lemma set_player_other_fields:
  "filter (\<lambda>kv. fst kv \<noteq> ''player'') (set_player n kvs) = filter (\<lambda>kv. fst kv \<noteq> ''player'') kvs"
proof -
  have "filter (\<lambda>kv. fst kv \<noteq> ''player'') (set_player n kvs)
      = filter (\<lambda>kv. fst kv \<noteq> ''player'') (takeWhile (\<lambda>kv. fst kv \<noteq> ''player'') kvs)
        @ filter (\<lambda>kv. fst kv \<noteq> ''player'') (tl (dropWhile (\<lambda>kv. fst kv \<noteq> ''player'') kvs))"
    by (simp add: set_player_def)
  also have "\<dots> = filter (\<lambda>kv. fst kv \<noteq> ''player'') kvs"
    by (induction kvs) auto
  finally show ?thesis .
qed

lemma set_player_value: "map_of (set_player n kvs) ''player'' = Some (JStr n)"
  unfolding set_player_def by (induction kvs) auto

lemma set_player_absent:
  "''player'' \<notin> fst ` set kvs \<Longrightarrow> set_player n kvs = kvs @ [(''player'', JStr n)]"
  unfolding set_player_def by (induction kvs) auto

lemma set_player_present:
  "''player'' \<in> fst ` set kvs \<Longrightarrow> map fst (set_player n kvs) = map fst kvs"
  unfolding set_player_def by (induction kvs) auto

text \<open>
  Claim C3, as amended. In every comprehensive record the scoring plays are the plays of
  the play list whose \<open>scoring_play\<close> field is true, and each of the touchdowns,
  interceptions and fumbles lists holds one element for every play of its category, in the
  order of the play list. The element is the play itself when no name is inferred for the
  play; otherwise it is the play with its \<open>player\<close> field set to the inferred name: the
  field is added as the last field when the play has none, and takes the place of the one
  the play has, so that an existing value is lost. Every other field keeps its value and
  its place. The play list itself is stored as it came.
\<close>

theorem derived_lists_differ_only_in_player:
  assumes "process_play_by_play_file name content now = Some c"
  shows "\<exists>data plays. content = Some data
       \<and> dget data ''plays'' (JList []) = Some (pbp_plays (c_play_by_play c))
       \<and> py_iter (pbp_plays (c_play_by_play c)) = Some plays
       \<and> pbp_scoring_plays (c_play_by_play c) = filter scoring_flag plays
       \<and> pbp_touchdowns (c_play_by_play c)
           = map (with_player ''touchdown'') (filter (in_category ''touchdown'') plays)
       \<and> pbp_interceptions (c_play_by_play c)
           = map (with_player ''interception'') (filter (in_category ''intercept'') plays)
       \<and> pbp_fumbles (c_play_by_play c)
           = map (with_player ''fumble'') (filter (in_category ''fumble'') plays)
       \<and> (\<forall>play_type play.
            (inferred_player play_type play = None \<and> with_player play_type play = play)
          \<or> (\<exists>kvs n. play = JObj kvs \<and> inferred_player play_type play = Some n \<and> name_shape n
                \<and> with_player play_type play = JObj (set_player n kvs)
                \<and> map_of (set_player n kvs) ''player'' = Some (JStr n)
                \<and> filter (\<lambda>kv. fst kv \<noteq> ''player'') (set_player n kvs)
                    = filter (\<lambda>kv. fst kv \<noteq> ''player'') kvs
                \<and> (''player'' \<notin> fst ` set kvs \<longrightarrow> set_player n kvs = kvs @ [(''player'', JStr n)])
                \<and> (''player'' \<in> fst ` set kvs \<longrightarrow> map fst (set_player n kvs) = map fst kvs)))"
proof -
  from assms obtain data plays sp tds ints fums where
    d: "content = Some data"
    and pl: "dget data ''plays'' (JList []) = Some (pbp_plays (c_play_by_play c))"
    and it: "py_iter (pbp_plays (c_play_by_play c)) = Some plays"
    and e: "extract_scoring_plays plays = Some sp" "extract_touchdowns plays = Some tds"
      "extract_interceptions plays = Some ints" "extract_fumbles plays = Some fums"
    and r: "pbp_scoring_plays (c_play_by_play c) = sp" "pbp_touchdowns (c_play_by_play c) = tds"
      "pbp_interceptions (c_play_by_play c) = ints" "pbp_fumbles (c_play_by_play c) = fums"
    unfolding process_play_by_play_file_def
    by (auto split: Option.bind_splits if_splits)
  have w: "(inferred_player play_type play = None \<and> with_player play_type play = play)
          \<or> (\<exists>kvs n. play = JObj kvs \<and> inferred_player play_type play = Some n \<and> name_shape n
                \<and> with_player play_type play = JObj (set_player n kvs)
                \<and> map_of (set_player n kvs) ''player'' = Some (JStr n)
                \<and> filter (\<lambda>kv. fst kv \<noteq> ''player'') (set_player n kvs)
                    = filter (\<lambda>kv. fst kv \<noteq> ''player'') kvs
                \<and> (''player'' \<notin> fst ` set kvs \<longrightarrow> set_player n kvs = kvs @ [(''player'', JStr n)])
                \<and> (''player'' \<in> fst ` set kvs \<longrightarrow> map fst (set_player n kvs) = map fst kvs))"
    for play_type play
  proof (cases "inferred_player play_type play")
    case None
    then show ?thesis by (simp add: with_player_None)
  next
    case (Some n)
    then obtain kvs tx where k: "play = JObj kvs"
      and x: "extract_player_from_play_text tx play_type = Some n"
      by (cases play) (auto simp: inferred_player_def split: option.splits json.splits)
    from extract_player_name_shape[OF x] have "name_shape n" by simp
    with Some k set_player_value set_player_other_fields set_player_absent set_player_present
    show ?thesis by (simp add: with_player_def)
  qed
  from d pl it r e w show ?thesis
    by (auto simp: extract_touchdowns_def extract_interceptions_def extract_fumbles_def
          dest!: extract_events_map extract_scoring_plays_filter)
qed

theorem derived_lists_differ_only_in_player_witness:
  "process_play_by_play_file ''2025-08-22_401_play_by_play.json''
     (Some (JObj [(''game_info'', JObj [(''game_id'', JStr ''401'')]),
        (''plays'', JList [
           JObj [(''text'', JStr ''J.Smith 5 yard run for a touchdown''), (''player'', JStr ''Bob''),
                 (''scoring_play'', JBool True)],
           JObj [(''text'', JStr ''Punt downed at the 20'')],
           JObj [(''text'', JStr ''K.Jones pass intercepted by M.Lee'')]])]))
     ''2025-08-23T10:00:00''
   = Some \<lparr>c_game_id = JStr ''401'', c_date = ''2025-08-22'',
       c_box_score = \<lparr>bs_game_info = \<lparr>bg_game_id = JStr ''401'', bg_date = JStr [],
           bg_status = JObj [], bg_venue = JObj [], bg_attendance = 0\<rparr>,
         bs_team_stats = [], bs_player_stats = [], bs_scoring_summary = []\<rparr>,
       c_play_by_play = \<lparr>pbp_game_info = JObj [(''game_id'', JStr ''401'')], pbp_drives = JList [],
         pbp_plays = JList [
           JObj [(''text'', JStr ''J.Smith 5 yard run for a touchdown''), (''player'', JStr ''Bob''),
                 (''scoring_play'', JBool True)],
           JObj [(''text'', JStr ''Punt downed at the 20'')],
           JObj [(''text'', JStr ''K.Jones pass intercepted by M.Lee'')]],
         pbp_scoring_plays =
           [JObj [(''text'', JStr ''J.Smith 5 yard run for a touchdown''), (''player'', JStr ''Bob''),
                  (''scoring_play'', JBool True)]],
         pbp_touchdowns =
           [JObj [(''text'', JStr ''J.Smith 5 yard run for a touchdown''), (''player'', JStr ''J.Smith''),
                  (''scoring_play'', JBool True)]],
         pbp_interceptions =
           [JObj [(''text'', JStr ''K.Jones pass intercepted by M.Lee''), (''player'', JStr ''M.Lee'')]],
         pbp_fumbles = []\<rparr>,
       c_processing_timestamp = ''2025-08-23T10:00:00''\<rparr>
   \<and> map (with_player ''touchdown'') (filter (in_category ''touchdown'')
          [JObj [(''text'', JStr ''J.Smith 5 yard run for a touchdown''), (''player'', JStr ''Bob''),
                 (''scoring_play'', JBool True)],
           JObj [(''text'', JStr ''Punt downed at the 20'')],
           JObj [(''text'', JStr ''K.Jones pass intercepted by M.Lee'')]])
       = [JObj [(''text'', JStr ''J.Smith 5 yard run for a touchdown''), (''player'', JStr ''J.Smith''),
                (''scoring_play'', JBool True)]]
   \<and> map (with_player ''interception'') (filter (in_category ''intercept'')
          [JObj [(''text'', JStr ''J.Smith 5 yard run for a touchdown''), (''player'', JStr ''Bob''),
                 (''scoring_play'', JBool True)],
           JObj [(''text'', JStr ''Punt downed at the 20'')],
           JObj [(''text'', JStr ''K.Jones pass intercepted by M.Lee'')]])
       = [JObj [(''text'', JStr ''K.Jones pass intercepted by M.Lee''), (''player'', JStr ''M.Lee'')]]"
proof -
  let ?p1 = "JObj [(''text'', JStr ''J.Smith 5 yard run for a touchdown''), (''player'', JStr ''Bob''),
                 (''scoring_play'', JBool True)]"
  let ?p2 = "JObj [(''text'', JStr ''Punt downed at the 20'')]"
  let ?p3 = "JObj [(''text'', JStr ''K.Jones pass intercepted by M.Lee'')]"
  let ?c = "\<lparr>c_game_id = JStr ''401'', c_date = ''2025-08-22'',
       c_box_score = \<lparr>bs_game_info = \<lparr>bg_game_id = JStr ''401'', bg_date = JStr [],
           bg_status = JObj [], bg_venue = JObj [], bg_attendance = 0\<rparr>,
         bs_team_stats = [], bs_player_stats = [], bs_scoring_summary = []\<rparr>,
       c_play_by_play = \<lparr>pbp_game_info = JObj [(''game_id'', JStr ''401'')], pbp_drives = JList [],
         pbp_plays = JList [?p1, ?p2, ?p3],
         pbp_scoring_plays = [?p1],
         pbp_touchdowns =
           [JObj [(''text'', JStr ''J.Smith 5 yard run for a touchdown''), (''player'', JStr ''J.Smith''),
                  (''scoring_play'', JBool True)]],
         pbp_interceptions =
           [JObj [(''text'', JStr ''K.Jones pass intercepted by M.Lee''), (''player'', JStr ''M.Lee'')]],
         pbp_fumbles = []\<rparr>,
       c_processing_timestamp = ''2025-08-23T10:00:00''\<rparr>"
  have h: "process_play_by_play_file ''2025-08-22_401_play_by_play.json''
     (Some (JObj [(''game_info'', JObj [(''game_id'', JStr ''401'')]),
        (''plays'', JList [?p1, ?p2, ?p3])]))
     ''2025-08-23T10:00:00'' = Some ?c"
    by code_simp
  from derived_lists_differ_only_in_player[OF h] obtain plays where
    p: "py_iter (pbp_plays (c_play_by_play ?c)) = Some plays"
    and t: "pbp_touchdowns (c_play_by_play ?c)
           = map (with_player ''touchdown'') (filter (in_category ''touchdown'') plays)"
    and i: "pbp_interceptions (c_play_by_play ?c)
           = map (with_player ''interception'') (filter (in_category ''intercept'') plays)"
    by blast
  from p have pl: "plays = [?p1, ?p2, ?p3]" by simp
  have st: "pbp_touchdowns (c_play_by_play ?c)
       = [JObj [(''text'', JStr ''J.Smith 5 yard run for a touchdown''), (''player'', JStr ''J.Smith''),
                (''scoring_play'', JBool True)]]"
    by simp
  have si: "pbp_interceptions (c_play_by_play ?c)
       = [JObj [(''text'', JStr ''K.Jones pass intercepted by M.Lee''), (''player'', JStr ''M.Lee'')]]"
    by simp
  have t': "map (with_player ''touchdown'') (filter (in_category ''touchdown'') [?p1, ?p2, ?p3])
       = [JObj [(''text'', JStr ''J.Smith 5 yard run for a touchdown''), (''player'', JStr ''J.Smith''),
                (''scoring_play'', JBool True)]]"
    using t unfolding pl st by (rule sym)
  have i': "map (with_player ''interception'') (filter (in_category ''intercept'') [?p1, ?p2, ?p3])
       = [JObj [(''text'', JStr ''K.Jones pass intercepted by M.Lee''), (''player'', JStr ''M.Lee'')]]"
    using i unfolding pl si by (rule sym)
  from h t' i' show ?thesis by blast
qed

text \<open>A play that already has a \<open>player\<close> field does not keep it: the derived touchdown
  carries the inferred name in its place.\<close>

theorem derived_list_player_overwritten_counterexample:
  "extract_touchdowns
      [JObj [(''text'', JStr ''J.Smith 5 yard run for a touchdown''), (''player'', JStr ''Bob'')]]
    = Some [JObj [(''text'', JStr ''J.Smith 5 yard run for a touchdown''), (''player'', JStr ''J.Smith'')]]"
  by code_simp

section \<open>Properties of the command lines\<close>

subsection \<open>The all flag and the freshness gate\<close>

lemma logged_update: "logged (st\<lparr>logged := l\<rparr>) = l"
  by simp

lemma process_loop_append:
  "process_loop env st (xs @ ys) = process_loop env (process_loop env st xs) ys"
  by (induction xs arbitrary: st) auto

lemma map_of_dict_set_other: "k' \<noteq> k \<Longrightarrow> map_of (dict_set kvs k v) k' = map_of kvs k'"
  by (induction kvs) auto

lemma is_fresh_cong:
  "map_of dir1 (comprehensive_file (sf_name f)) = map_of dir2 (comprehensive_file (sf_name f)) \<Longrightarrow>
   is_fresh dir1 f = is_fresh dir2 f"
  by (simp add: is_fresh_def)

lemma process_one_keeps_entry:
  assumes "comprehensive_file (sf_name g) = k \<longrightarrow> (\<exists>cf. map_of (comprehensive_dir st) k = Some cf \<and> cf_mtime cf > sf_mtime g)"
  shows "map_of (comprehensive_dir (process_one env st g)) k = map_of (comprehensive_dir st) k"
proof (cases "comprehensive_file (sf_name g) = k")
  case True
  with assms have "is_fresh (comprehensive_dir st) g" by (auto simp: is_fresh_def)
  then show ?thesis by (simp add: process_one_def)
next
  case False
  then show ?thesis
    by (auto simp: process_one_def map_of_dict_set_other split: option.splits)
qed

lemma process_loop_keeps_entry:
  assumes "\<forall>g\<in>set earlier. comprehensive_file (sf_name g) = k \<longrightarrow>
             (\<exists>cf. map_of (comprehensive_dir st) k = Some cf \<and> cf_mtime cf > sf_mtime g)"
  shows "map_of (comprehensive_dir (process_loop env st earlier)) k = map_of (comprehensive_dir st) k"
  using assms
proof (induction earlier arbitrary: st)
  case Nil
  then show ?case by simp
next
  case (Cons g earlier)
  have one: "map_of (comprehensive_dir (process_one env st g)) k = map_of (comprehensive_dir st) k"
    using Cons.prems by (intro process_one_keeps_entry) simp
  have "\<forall>h\<in>set earlier. comprehensive_file (sf_name h) = k \<longrightarrow>
          (\<exists>cf. map_of (comprehensive_dir (process_one env st g)) k = Some cf \<and> cf_mtime cf > sf_mtime h)"
    using Cons.prems by (simp add: one)
  from Cons.IH[OF this] one show ?case by simp
qed

lemma fresh_at_turn:
  assumes "is_fresh dir f"
    and "\<forall>g\<in>set earlier. comprehensive_file (sf_name g) = comprehensive_file (sf_name f) \<longrightarrow> is_fresh dir g"
  shows "is_fresh (comprehensive_dir (process_loop env (new_processor dir) earlier)) f"
proof -
  have "\<forall>g\<in>set earlier. comprehensive_file (sf_name g) = comprehensive_file (sf_name f) \<longrightarrow>
          (\<exists>cf. map_of (comprehensive_dir (new_processor dir)) (comprehensive_file (sf_name f)) = Some cf
                \<and> cf_mtime cf > sf_mtime g)"
    using assms(2) by (auto simp: is_fresh_def new_processor_def split: option.splits)
  from process_loop_keeps_entry[OF this, of env]
  have "map_of (comprehensive_dir (process_loop env (new_processor dir) earlier)) (comprehensive_file (sf_name f))
      = map_of dir (comprehensive_file (sf_name f))"
    by (simp add: new_processor_def)
  from is_fresh_cong[OF this] assms(1) show ?thesis by simp
qed

lemma extract_main_run_files:
  "run_files env args = Some files \<Longrightarrow>
   snd (extract_main env dir args)
     = Some (\<lparr>rr_processed = processed_count (process_loop env (new_processor dir) files),
              rr_failed = failed_count (process_loop env (new_processor dir) files),
              rr_total = length files\<rparr>, process_loop env (new_processor dir) files)"
  by (auto simp: run_files_def extract_main_def process_recent_files_def Let_def split: if_splits)

text \<open>
  Claim C8, as amended. No mode of the command line ignores the freshness gate. Whatever
  the options, a file that, when its turn comes, has a comprehensive output newer than
  itself is skipped: its turn adds the \<open>Skipping\<close> report and changes neither a count nor
  the comprehensive directory, and the run goes on with the files after it. This is the
  case of a file whose output was newer when the run started, unless a file taken before
  it in the same run wrote that very output. The all flag does one thing: it clears the
  date-prefix filter, so that a run with the flag is the run with no option at all.
\<close>

theorem freshness_gate_in_every_mode:
  assumes "run_files env args = Some (earlier @ f # later)"
  shows "(is_fresh dir f
          \<and> (\<forall>g\<in>set earlier. comprehensive_file (sf_name g) = comprehensive_file (sf_name f)
                \<longrightarrow> is_fresh dir g)
          \<longrightarrow> is_fresh (comprehensive_dir (process_loop env (new_processor dir) earlier)) f)
     \<and> (is_fresh (comprehensive_dir (process_loop env (new_processor dir) earlier)) f \<longrightarrow>
          process_loop env (new_processor dir) (earlier @ [f])
            = (process_loop env (new_processor dir) earlier)
                \<lparr>logged := logged (process_loop env (new_processor dir) earlier) @ [Skipping (sf_name f)]\<rparr>
        \<and> (\<exists>result. snd (extract_main env dir args)
              = Some (result, process_loop env
                  ((process_loop env (new_processor dir) earlier)
                     \<lparr>logged := logged (process_loop env (new_processor dir) earlier) @ [Skipping (sf_name f)]\<rparr>)
                  later)))
     \<and> extract_main env dir (args\<lparr>arg_all := True\<rparr>)
         = extract_main env dir \<lparr>arg_date_pattern = None, arg_all = False\<rparr>"
proof -
  let ?st = "process_loop env (new_processor dir) earlier"
  have a: "is_fresh (comprehensive_dir ?st) f"
    if "is_fresh dir f"
      "\<forall>g\<in>set earlier. comprehensive_file (sf_name g) = comprehensive_file (sf_name f) \<longrightarrow> is_fresh dir g"
    using that by (rule fresh_at_turn)
  have b: "process_loop env (new_processor dir) (earlier @ [f])
            = ?st\<lparr>logged := logged ?st @ [Skipping (sf_name f)]\<rparr>
        \<and> (\<exists>result. snd (extract_main env dir args)
              = Some (result, process_loop env (?st\<lparr>logged := logged ?st @ [Skipping (sf_name f)]\<rparr>) later))"
    if fr: "is_fresh (comprehensive_dir ?st) f"
  proof -
    have one: "process_one env ?st f = ?st\<lparr>logged := logged ?st @ [Skipping (sf_name f)]\<rparr>"
      using fr by (simp add: process_one_def)
    have l1: "process_loop env (new_processor dir) (earlier @ [f])
            = ?st\<lparr>logged := logged ?st @ [Skipping (sf_name f)]\<rparr>"
      by (simp add: process_loop_append one)
    have l2: "process_loop env (new_processor dir) (earlier @ f # later)
            = process_loop env (?st\<lparr>logged := logged ?st @ [Skipping (sf_name f)]\<rparr>) later"
      by (simp add: process_loop_append one)
    from extract_main_run_files[OF assms, of dir] l1 l2 show ?thesis by simp
  qed
  have c: "extract_main env dir (args\<lparr>arg_all := True\<rparr>)
         = extract_main env dir \<lparr>arg_date_pattern = None, arg_all = False\<rparr>"
    by (simp add: extract_main_def main_date_pattern_def)
  from a b c show ?thesis by blast
qed

theorem freshness_gate_in_every_mode_witness:
  "run_files
     \<lparr>ext_clock = (\<lambda>name. (''2025-08-23T10:00:00'', 300)),
      ext_glob = (\<lambda>pattern. if pattern = ''2025-08*_play_by_play.json''
         then Some [\<lparr>sf_name = ''2025-08-21_400_play_by_play.json'', sf_mtime = 250,
                      sf_content = Some (JObj [(''game_info'', JObj [(''game_id'', JStr ''400'')])])\<rparr>,
                    \<lparr>sf_name = ''2025-08-22_401_play_by_play.json'', sf_mtime = 100,
                      sf_content = Some (JObj [(''game_info'', JObj [(''game_id'', JStr ''401'')])])\<rparr>]
         else Some []),
      ext_can_write = (\<lambda>name. True), ext_mkdir_ok = True, ext_stdout_encodes = True\<rparr>
     \<lparr>arg_date_pattern = Some ''2025-08'', arg_all = False\<rparr>
   = Some ([\<lparr>sf_name = ''2025-08-21_400_play_by_play.json'', sf_mtime = 250,
              sf_content = Some (JObj [(''game_info'', JObj [(''game_id'', JStr ''400'')])])\<rparr>]
           @ \<lparr>sf_name = ''2025-08-22_401_play_by_play.json'', sf_mtime = 100,
              sf_content = Some (JObj [(''game_info'', JObj [(''game_id'', JStr ''401'')])])\<rparr> # [])
   \<and> is_fresh
       [(''2025-08-21_400_complete.json'', \<lparr>cf_mtime = 200, cf_written = None\<rparr>),
        (''2025-08-22_401_complete.json'', \<lparr>cf_mtime = 200, cf_written = None\<rparr>)]
       \<lparr>sf_name = ''2025-08-22_401_play_by_play.json'', sf_mtime = 100,
         sf_content = Some (JObj [(''game_info'', JObj [(''game_id'', JStr ''401'')])])\<rparr>
   \<and> logged (process_loop
       \<lparr>ext_clock = (\<lambda>name. (''2025-08-23T10:00:00'', 300)),
        ext_glob = (\<lambda>pattern. if pattern = ''2025-08*_play_by_play.json''
           then Some [\<lparr>sf_name = ''2025-08-21_400_play_by_play.json'', sf_mtime = 250,
                        sf_content = Some (JObj [(''game_info'', JObj [(''game_id'', JStr ''400'')])])\<rparr>,
                      \<lparr>sf_name = ''2025-08-22_401_play_by_play.json'', sf_mtime = 100,
                        sf_content = Some (JObj [(''game_info'', JObj [(''game_id'', JStr ''401'')])])\<rparr>]
           else Some []),
        ext_can_write = (\<lambda>name. True), ext_mkdir_ok = True, ext_stdout_encodes = True\<rparr>
       (new_processor
          [(''2025-08-21_400_complete.json'', \<lparr>cf_mtime = 200, cf_written = None\<rparr>),
           (''2025-08-22_401_complete.json'', \<lparr>cf_mtime = 200, cf_written = None\<rparr>)])
       ([\<lparr>sf_name = ''2025-08-21_400_play_by_play.json'', sf_mtime = 250,
           sf_content = Some (JObj [(''game_info'', JObj [(''game_id'', JStr ''400'')])])\<rparr>]
        @ [\<lparr>sf_name = ''2025-08-22_401_play_by_play.json'', sf_mtime = 100,
             sf_content = Some (JObj [(''game_info'', JObj [(''game_id'', JStr ''401'')])])\<rparr>]))
     = [Created ''2025-08-21_400_complete.json'', Skipping ''2025-08-22_401_play_by_play.json'']"
proof -
  let ?f0 = "\<lparr>sf_name = ''2025-08-21_400_play_by_play.json'', sf_mtime = 250,
              sf_content = Some (JObj [(''game_info'', JObj [(''game_id'', JStr ''400'')])])\<rparr>"
  let ?f1 = "\<lparr>sf_name = ''2025-08-22_401_play_by_play.json'', sf_mtime = 100,
              sf_content = Some (JObj [(''game_info'', JObj [(''game_id'', JStr ''401'')])])\<rparr>"
  let ?env = "\<lparr>ext_clock = (\<lambda>name. (''2025-08-23T10:00:00'', 300)),
      ext_glob = (\<lambda>pattern. if pattern = ''2025-08*_play_by_play.json'' then Some [?f0, ?f1] else Some []),
      ext_can_write = (\<lambda>name. True), ext_mkdir_ok = True, ext_stdout_encodes = True\<rparr>"
  let ?dir = "[(''2025-08-21_400_complete.json'', \<lparr>cf_mtime = 200, cf_written = None\<rparr>),
        (''2025-08-22_401_complete.json'', \<lparr>cf_mtime = 200, cf_written = None\<rparr>)]"
  let ?args = "\<lparr>arg_date_pattern = Some ''2025-08'', arg_all = False\<rparr>"
  have r: "run_files ?env ?args = Some ([?f0] @ ?f1 # [])" by code_simp
  have fr: "is_fresh ?dir ?f1" by code_simp
  have other: "\<forall>g\<in>set [?f0]. comprehensive_file (sf_name g) = comprehensive_file (sf_name ?f1)
                \<longrightarrow> is_fresh ?dir g"
    by code_simp
  have before: "logged (process_loop ?env (new_processor ?dir) [?f0]) = [Created ''2025-08-21_400_complete.json'']"
    by code_simp
  note t = freshness_gate_in_every_mode[OF r, of ?dir]
  from t fr other have turn: "is_fresh (comprehensive_dir (process_loop ?env (new_processor ?dir) [?f0])) ?f1"
    by blast
  with t have "process_loop ?env (new_processor ?dir) ([?f0] @ [?f1])
            = (process_loop ?env (new_processor ?dir) [?f0])
                \<lparr>logged := logged (process_loop ?env (new_processor ?dir) [?f0]) @ [Skipping (sf_name ?f1)]\<rparr>"
    by blast
  then have "logged (process_loop ?env (new_processor ?dir) ([?f0] @ [?f1]))
      = logged ((process_loop ?env (new_processor ?dir) [?f0])
                \<lparr>logged := logged (process_loop ?env (new_processor ?dir) [?f0]) @ [Skipping (sf_name ?f1)]\<rparr>)"
    by (rule arg_cong)
  then have "logged (process_loop ?env (new_processor ?dir) ([?f0] @ [?f1]))
      = logged (process_loop ?env (new_processor ?dir) [?f0]) @ [Skipping (sf_name ?f1)]"
    by (simp only: logged_update)
  then have l: "logged (process_loop ?env (new_processor ?dir) ([?f0] @ [?f1]))
      = [Created ''2025-08-21_400_complete.json'', Skipping ''2025-08-22_401_play_by_play.json'']"
    unfolding before by simp
  from r fr l show ?thesis by blast
qed

text \<open>With the all flag selected, a file whose comprehensive output is newer than the
  source is still skipped: nothing is processed.\<close>

theorem extract_main_all_flag_counterexample:
  "extract_main
     \<lparr>ext_clock = (\<lambda>name. (''2025-08-23T10:00:00'', 300)),
      ext_glob = (\<lambda>pattern. Some [\<lparr>sf_name = ''2025-08-22_401_play_by_play.json'', sf_mtime = 100,
         sf_content = Some (JObj [(''game_info'', JObj [(''game_id'', JStr ''401'')])])\<rparr>]),
      ext_can_write = (\<lambda>name. True), ext_mkdir_ok = True, ext_stdout_encodes = True\<rparr>
     [(''2025-08-22_401_complete.json'', \<lparr>cf_mtime = 200, cf_written = None\<rparr>)]
     \<lparr>arg_date_pattern = None, arg_all = True\<rparr>
   = (0, Some (\<lparr>rr_processed = 0, rr_failed = 0, rr_total = 1\<rparr>,
      \<lparr>processed_count = 0, failed_count = 0,
        comprehensive_dir = [(''2025-08-22_401_complete.json'', \<lparr>cf_mtime = 200, cf_written = None\<rparr>)],
        logged = [Skipping ''2025-08-22_401_play_by_play.json'']\<rparr>))"
  by code_simp

subsection \<open>Exit status\<close>








section \<open>Properties of the per-game statistic extraction\<close>

subsection \<open>Deduplication by player name\<close>

lemma touchdown_step_skip:
  "attached_key td = None \<Longrightarrow> touchdown_step cdata (ps, processed) td = Some st \<Longrightarrow> st = (ps, processed)"
  by (auto simp: attached_key_def touchdown_step_def split: Option.bind_splits if_splits option.splits)

lemma touchdown_step_seen:
  "attached_key td = Some k \<Longrightarrow> k \<in> set processed \<Longrightarrow>
   touchdown_step cdata (ps, processed) td = Some (ps, processed)"
  by (auto simp: attached_key_def touchdown_step_def split: Option.bind_splits if_splits option.splits)

lemma touchdown_step_new:
  "attached_key td = Some k \<Longrightarrow> k \<notin> set processed \<Longrightarrow>
   touchdown_step cdata (ps, processed) td = Some st \<Longrightarrow> snd st = processed @ [k]"
  by (auto simp: attached_key_def touchdown_step_def split: Option.bind_splits if_splits option.splits)

lemma touchdown_step_processed:
  assumes "touchdown_step cdata (ps, processed) td = Some (ps', processed')"
  shows "set processed' = set processed \<union> {k. attached_key td = Some k}"
proof (cases "attached_key td")
  case None
  with touchdown_step_skip[OF None assms] show ?thesis by simp
next
  case (Some k)
  show ?thesis
  proof (cases "k \<in> set processed")
    case True
    with touchdown_step_seen[OF Some True, of cdata ps] assms Some show ?thesis by auto
  next
    case False
    with touchdown_step_new[OF Some False assms] Some show ?thesis by auto
  qed
qed

lemma touchdown_loop_processed:
  "touchdown_loop cdata (ps, processed) tds = Some (ps', processed') \<Longrightarrow>
   set processed' = set processed \<union> {k. \<exists>td\<in>set tds. attached_key td = Some k}"
proof (induction tds arbitrary: ps processed)
  case Nil
  then show ?case by simp
next
  case (Cons td tds)
  from Cons.prems obtain ps1 pr1 where
    s: "touchdown_step cdata (ps, processed) td = Some (ps1, pr1)"
    and l: "touchdown_loop cdata (ps1, pr1) tds = Some (ps', processed')"
    by (auto split: Option.bind_splits)
  from touchdown_step_processed[OF s] Cons.IH[OF l] show ?case by auto
qed

lemma touchdown_step_emits:
  assumes "attached_key td = Some k" "k \<notin> set processed"
    and "touchdown_step cdata (ps, processed) td = Some (ps', processed')"
    and "dget td ''text'' (JStr []) = Some (JStr tx)"
  shows "if contains ''pass'' (lower tx) \<and> contains ''to'' (lower tx)
         then length (receiving ps') = length (receiving ps) + 1 \<and> rushing ps' = rushing ps
         else if contains ''run'' (lower tx) \<or> contains ''rush'' (lower tx)
         then length (rushing ps') = length (rushing ps) + 1 \<and> passing ps' = passing ps
              \<and> receiving ps' = receiving ps
         else ps' = ps"
  using assms
  by (auto simp: attached_key_def touchdown_step_def add_passing_def add_receiving_def
        add_rushing_def split: Option.bind_splits if_splits option.splits)

text \<open>
  Claim C6, as amended. In one extraction pass over a game's touchdowns, a touchdown with
  an attached player is suppressed exactly when an earlier touchdown of the same pass
  carried the same attached player, whether or not that earlier touchdown emitted a line
  item. A suppressed touchdown changes nothing. A touchdown whose attached player was
  carried by no earlier touchdown of the pass is not suppressed: its turn records the
  player and emits the receiving item of a passing touchdown, the rushing item of a
  rushing touchdown, and nothing for any other text.
\<close>

theorem touchdown_deduplication:
  assumes "touchdown_loop cdata (no_stats, []) earlier = Some (ps, processed)"
    and "attached_key td = Some k"
  shows "(k \<in> set processed) = (\<exists>e\<in>set earlier. attached_key e = Some k)
       \<and> (k \<in> set processed \<longrightarrow> touchdown_step cdata (ps, processed) td = Some (ps, processed))
       \<and> (k \<notin> set processed \<longrightarrow>
            (\<forall>ps' processed' tx. touchdown_step cdata (ps, processed) td = Some (ps', processed')
                \<and> dget td ''text'' (JStr []) = Some (JStr tx) \<longrightarrow>
              processed' = processed @ [k]
              \<and> (if contains ''pass'' (lower tx) \<and> contains ''to'' (lower tx)
                 then length (receiving ps') = length (receiving ps) + 1 \<and> rushing ps' = rushing ps
                 else if contains ''run'' (lower tx) \<or> contains ''rush'' (lower tx)
                 then length (rushing ps') = length (rushing ps) + 1 \<and> passing ps' = passing ps
                      \<and> receiving ps' = receiving ps
                 else ps' = ps)))"
proof -
  have a: "(k \<in> set processed) = (\<exists>e\<in>set earlier. attached_key e = Some k)"
    using touchdown_loop_processed[OF assms(1)] by auto
  have b: "touchdown_step cdata (ps, processed) td = Some (ps, processed)" if "k \<in> set processed"
    using touchdown_step_seen[OF assms(2) that] .
  have c: "processed' = processed @ [k]
              \<and> (if contains ''pass'' (lower tx) \<and> contains ''to'' (lower tx)
                 then length (receiving ps') = length (receiving ps) + 1 \<and> rushing ps' = rushing ps
                 else if contains ''run'' (lower tx) \<or> contains ''rush'' (lower tx)
                 then length (rushing ps') = length (rushing ps) + 1 \<and> passing ps' = passing ps
                      \<and> receiving ps' = receiving ps
                 else ps' = ps)"
    if "k \<notin> set processed" "touchdown_step cdata (ps, processed) td = Some (ps', processed')"
       "dget td ''text'' (JStr []) = Some (JStr tx)" for ps' processed' tx
    using touchdown_step_new[OF assms(2) that(1,2)] touchdown_step_emits[OF assms(2) that]
    by simp
  from a b c show ?thesis by blast
qed

theorem touchdown_deduplication_witness:
  "touchdown_loop (JObj []) (no_stats, [])
     [JObj [(''text'', JStr ''K.Jones 5 yard run for a touchdown''), (''player'', JStr ''K.Jones'')]]
   = Some (no_stats\<lparr>rushing := [rushing_item ''K.Jones'' (JStr ''Unknown Team'') (Upper ''Unk'') 5]\<rparr>,
           [JStr ''K.Jones''])
   \<and> attached_key (JObj [(''text'', JStr ''K.Jones 12 yard run for a touchdown''),
        (''player'', JStr ''K.Jones'')]) = Some (JStr ''K.Jones'')
   \<and> touchdown_step (JObj [])
       (no_stats\<lparr>rushing := [rushing_item ''K.Jones'' (JStr ''Unknown Team'') (Upper ''Unk'') 5]\<rparr>,
        [JStr ''K.Jones''])
       (JObj [(''text'', JStr ''K.Jones 12 yard run for a touchdown''), (''player'', JStr ''K.Jones'')])
     = Some (no_stats\<lparr>rushing := [rushing_item ''K.Jones'' (JStr ''Unknown Team'') (Upper ''Unk'') 5]\<rparr>,
             [JStr ''K.Jones''])"
proof -
  let ?e = "JObj [(''text'', JStr ''K.Jones 5 yard run for a touchdown''), (''player'', JStr ''K.Jones'')]"
  let ?td = "JObj [(''text'', JStr ''K.Jones 12 yard run for a touchdown''), (''player'', JStr ''K.Jones'')]"
  let ?ps = "no_stats\<lparr>rushing := [rushing_item ''K.Jones'' (JStr ''Unknown Team'') (Upper ''Unk'') 5]\<rparr>"
  have l: "touchdown_loop (JObj []) (no_stats, []) [?e] = Some (?ps, [JStr ''K.Jones''])"
    by code_simp
  have k: "attached_key ?td = Some (JStr ''K.Jones'')" by code_simp
  have m: "JStr ''K.Jones'' \<in> set [JStr ''K.Jones'']" by simp
  from touchdown_deduplication[OF l k] m
  have "touchdown_step (JObj []) (?ps, [JStr ''K.Jones'']) ?td = Some (?ps, [JStr ''K.Jones''])"
    by blast
  with l k show ?thesis by blast
qed

text \<open>A touchdown that emitted no line item still marks its player as processed: the
  player's later rushing touchdown is suppressed, although the name has produced no line
  item. Alone, the rushing touchdown emits its item.\<close>

theorem touchdown_deduplication_counterexample:
  "extract_player_stats_from_comprehensive
     (JObj [(''play_by_play'', JObj [(''touchdowns'', JList [
        JObj [(''text'', JStr ''K.Jones fumble recovery for a touchdown''), (''player'', JStr ''K.Jones'')],
        JObj [(''text'', JStr ''K.Jones 5 yard run for a touchdown''), (''player'', JStr ''K.Jones'')]])])])
   = Some no_stats
   \<and> extract_player_stats_from_comprehensive
     (JObj [(''play_by_play'', JObj [(''touchdowns'', JList [
        JObj [(''text'', JStr ''K.Jones 5 yard run for a touchdown''), (''player'', JStr ''K.Jones'')]])])])
   = Some (no_stats\<lparr>rushing := [rushing_item ''K.Jones'' (JStr ''Unknown Team'') (Upper ''Unk'') 5]\<rparr>)"
  by code_simp

subsection \<open>Passing touchdowns\<close>

lemma passer_nonempty: "extract_passer_from_text t = Some p \<Longrightarrow> p \<noteq> []"
proof -
  assume "extract_passer_from_text t = Some p"
  then have "re_search False passer_pattern t = Some p" by (simp add: extract_passer_from_text_def)
  from re_search_group[OF this] obtain gs where
    gs: "list_all2 (item_ok False) (grp passer_pattern) gs" "p = concat gs" by blast
  from gs(1) obtain g1 rest where "gs = g1 # rest" "item_ok False (One (OneOf upper_chars)) g1"
    by (auto simp: passer_pattern_def list_all2_Cons1)
  then show ?thesis using gs(2) by (auto split: list.splits)
qed

lemma passing_step:
  assumes tx: "dget td ''text'' (JStr []) = Some (JStr play_text)"
    and pass: "contains ''pass'' (lower play_text)" "contains ''to'' (lower play_text)"
    and key: "attached_key td = Some key" "key \<notin> set processed"
  shows "touchdown_step cdata (ps, processed) td =
           (case (dget td ''player'' JNull, extract_team_from_play cdata,
                  extract_yards_from_text (lower play_text)) of
              (Some (JStr name), Some (JStr team), Some yards) \<Rightarrow>
                Some (ps\<lparr>passing := passing ps @
                           (case extract_passer_from_text play_text of
                              Some passer \<Rightarrow> [passing_item passer (JStr team) (Upper (take 3 team)) yards]
                            | None \<Rightarrow> []),
                         receiving := receiving ps @
                           [receiving_item name (JStr team) (Upper (take 3 team)) yards]\<rparr>,
                      processed @ [key])
            | _ \<Rightarrow> None)"
proof -
  from key(1) obtain player where pl: "dget td ''player'' JNull = Some player" "truthy player"
      "hash_key player = Some key"
    by (auto simp: attached_key_def split: option.splits if_splits)
  show ?thesis
  proof (cases "extract_team_from_play cdata")
    case None
    with pl tx pass key(2) show ?thesis
      by (auto simp: touchdown_step_def split: json.splits option.splits)
  next
    case (Some team)
    show ?thesis
    proof (cases "\<exists>name s yards. player = JStr name \<and> team = JStr s
        \<and> extract_yards_from_text (lower play_text) = Some yards")
      case True
      then obtain name s yards where v: "player = JStr name" "team = JStr s"
        "extract_yards_from_text (lower play_text) = Some yards" by blast
      with pl tx pass key(2) Some passer_nonempty[of play_text] show ?thesis
        by (auto simp: touchdown_step_def add_passing_def add_receiving_def split: option.splits)
    next
      case False
      have "touchdown_step cdata (ps, processed) td = None"
      proof (cases "add_passing ps play_text (lower play_text) team")
        case None
        with pl tx pass key(2) Some show ?thesis by (simp add: touchdown_step_def)
      next
        case (Some ps1)
        have "add_receiving ps1 player (lower play_text) team = None"
          using False pl(2)
          by (cases player; cases team)
             (auto simp: add_receiving_def split: Option.bind_splits)
        with Some pl tx pass key(2) \<open>extract_team_from_play cdata = Some team\<close> show ?thesis
          by (simp add: touchdown_step_def)
      qed
      moreover have "(case (dget td ''player'' JNull, extract_team_from_play cdata,
                  extract_yards_from_text (lower play_text)) of
              (Some (JStr name), Some (JStr team), Some yards) \<Rightarrow>
                Some (ps\<lparr>passing := passing ps @
                           (case extract_passer_from_text play_text of
                              Some passer \<Rightarrow> [passing_item passer (JStr team) (Upper (take 3 team)) yards]
                            | None \<Rightarrow> []),
                         receiving := receiving ps @
                           [receiving_item name (JStr team) (Upper (take 3 team)) yards]\<rparr>,
                      processed @ [key])
            | _ \<Rightarrow> None) = None"
        using False pl(1) Some
        by (cases player; cases team; cases "extract_yards_from_text (lower play_text)") auto
      ultimately show ?thesis by simp
    qed
  qed
qed

text \<open>
  Claim C5, as amended. Take a touchdown event whose text contains both \<open>pass\<close> and
  \<open>to\<close> and which carries an attached player not yet processed in the pass. The passer
  is what the dedicated pattern finds in the text as it is written. The event emits the
  receiving line item (1 reception, the yards parsed from the text, 1 touchdown) for its
  attached player, whether a passer is found or not, and before it the passing line item
  (1 completion, 1 attempt, the same yards, 1 touchdown, 0 interceptions) for the passer
  exactly when one is found; nothing else changes but the player being recorded as
  processed. The turn raises instead when the attached player or the team is no string or
  the yards cannot be converted. An event without an attached player, or whose player is
  already processed, emits nothing.
\<close>

theorem passing_touchdown_line_items:
  assumes "dget td ''text'' (JStr []) = Some (JStr play_text)"
    and "contains ''pass'' (lower play_text)" "contains ''to'' (lower play_text)"
  shows "(\<forall>key. attached_key td = Some key \<and> key \<notin> set processed \<longrightarrow>
           touchdown_step cdata (ps, processed) td =
             (case (dget td ''player'' JNull, extract_team_from_play cdata,
                    extract_yards_from_text (lower play_text)) of
                (Some (JStr name), Some (JStr team), Some yards) \<Rightarrow>
                  Some (ps\<lparr>passing := passing ps @
                             (case extract_passer_from_text play_text of
                                Some passer \<Rightarrow>
                                  [\<lparr>li_player_id = ''player_'' @ replace_char CHR '' '' CHR ''_'' passer,
                                    li_name = passer, li_team = JStr team,
                                    li_team_abbrev = Upper (take 3 team),
                                    li_counts = [(''completions'', 1), (''attempts'', 1),
                                      (''yards'', yards), (''touchdowns'', 1), (''interceptions'', 0)]\<rparr>]
                              | None \<Rightarrow> []),
                           receiving := receiving ps @
                             [\<lparr>li_player_id = ''player_'' @ replace_char CHR '' '' CHR ''_'' name,
                               li_name = name, li_team = JStr team,
                               li_team_abbrev = Upper (take 3 team),
                               li_counts = [(''receptions'', 1), (''yards'', yards),
                                 (''touchdowns'', 1)]\<rparr>]\<rparr>,
                        processed @ [key])
              | _ \<Rightarrow> None))
       \<and> (attached_key td = None \<or> (\<exists>key. attached_key td = Some key \<and> key \<in> set processed) \<longrightarrow>
            (\<forall>st. touchdown_step cdata (ps, processed) td = Some st \<longrightarrow> st = (ps, processed)))"
proof -
  have a: "touchdown_step cdata (ps, processed) td =
             (case (dget td ''player'' JNull, extract_team_from_play cdata,
                    extract_yards_from_text (lower play_text)) of
                (Some (JStr name), Some (JStr team), Some yards) \<Rightarrow>
                  Some (ps\<lparr>passing := passing ps @
                             (case extract_passer_from_text play_text of
                                Some passer \<Rightarrow>
                                  [\<lparr>li_player_id = ''player_'' @ replace_char CHR '' '' CHR ''_'' passer,
                                    li_name = passer, li_team = JStr team,
                                    li_team_abbrev = Upper (take 3 team),
                                    li_counts = [(''completions'', 1), (''attempts'', 1),
                                      (''yards'', yards), (''touchdowns'', 1), (''interceptions'', 0)]\<rparr>]
                              | None \<Rightarrow> []),
                           receiving := receiving ps @
                             [\<lparr>li_player_id = ''player_'' @ replace_char CHR '' '' CHR ''_'' name,
                               li_name = name, li_team = JStr team,
                               li_team_abbrev = Upper (take 3 team),
                               li_counts = [(''receptions'', 1), (''yards'', yards),
                                 (''touchdowns'', 1)]\<rparr>]\<rparr>,
                        processed @ [key])
              | _ \<Rightarrow> None)"
    if "attached_key td = Some key" "key \<notin> set processed" for key
    using passing_step[OF assms that, of cdata ps]
    unfolding passing_item_def receiving_item_def player_id_def .
  have b: "st = (ps, processed)"
    if "attached_key td = None \<or> (\<exists>key. attached_key td = Some key \<and> key \<in> set processed)"
      "touchdown_step cdata (ps, processed) td = Some st" for st
    using that touchdown_step_skip[of td cdata ps processed st]
      touchdown_step_seen[of td _ processed cdata ps]
    by auto
  from a b show ?thesis by blast
qed

theorem passing_touchdown_line_items_witness:
  "touchdown_step (JObj []) (no_stats, [])
     (JObj [(''text'', JStr ''(Gun) J.Smith pass to K.Jones for 5 yard touchdown''),
            (''player'', JStr ''K.Jones'')])
   = Some (no_stats
       \<lparr>passing := [\<lparr>li_player_id = ''player_J.Smith'', li_name = ''J.Smith'',
            li_team = JStr ''Unknown Team'', li_team_abbrev = Upper ''Unk'',
            li_counts = [(''completions'', 1), (''attempts'', 1), (''yards'', 5),
              (''touchdowns'', 1), (''interceptions'', 0)]\<rparr>],
        receiving := [\<lparr>li_player_id = ''player_K.Jones'', li_name = ''K.Jones'',
            li_team = JStr ''Unknown Team'', li_team_abbrev = Upper ''Unk'',
            li_counts = [(''receptions'', 1), (''yards'', 5), (''touchdowns'', 1)]\<rparr>]\<rparr>,
      [JStr ''K.Jones''])
   \<and> extract_passer_from_text ''(Gun) J.Smith pass to K.Jones for 5 yard touchdown'' = Some ''J.Smith''"
proof -
  let ?t = "''(Gun) J.Smith pass to K.Jones for 5 yard touchdown''"
  let ?td = "JObj [(''text'', JStr ?t), (''player'', JStr ''K.Jones'')]"
  have tx: "dget ?td ''text'' (JStr []) = Some (JStr ?t)" by simp
  have p: "contains ''pass'' (lower ?t)" by code_simp
  have o: "contains ''to'' (lower ?t)" by code_simp
  have k: "attached_key ?td = Some (JStr ''K.Jones'')" by code_simp
  have n: "JStr ''K.Jones'' \<notin> set []" by simp
  have pl: "dget ?td ''player'' JNull = Some (JStr ''K.Jones'')" by simp
  have tm: "extract_team_from_play (JObj []) = Some (JStr ''Unknown Team'')" by code_simp
  have y: "extract_yards_from_text (lower ?t) = Some 5" by code_simp
  have ps: "extract_passer_from_text ?t = Some ''J.Smith''" by code_simp
  from passing_touchdown_line_items[OF tx p o, of "[]" "JObj []" no_stats] k n
  have "touchdown_step (JObj []) (no_stats, []) ?td =
             (case (dget ?td ''player'' JNull, extract_team_from_play (JObj []),
                    extract_yards_from_text (lower ?t)) of
                (Some (JStr name), Some (JStr team), Some yards) \<Rightarrow>
                  Some (no_stats\<lparr>passing := passing no_stats @
                             (case extract_passer_from_text ?t of
                                Some passer \<Rightarrow>
                                  [\<lparr>li_player_id = ''player_'' @ replace_char CHR '' '' CHR ''_'' passer,
                                    li_name = passer, li_team = JStr team,
                                    li_team_abbrev = Upper (take 3 team),
                                    li_counts = [(''completions'', 1), (''attempts'', 1),
                                      (''yards'', yards), (''touchdowns'', 1), (''interceptions'', 0)]\<rparr>]
                              | None \<Rightarrow> []),
                           receiving := receiving no_stats @
                             [\<lparr>li_player_id = ''player_'' @ replace_char CHR '' '' CHR ''_'' name,
                               li_name = name, li_team = JStr team,
                               li_team_abbrev = Upper (take 3 team),
                               li_counts = [(''receptions'', 1), (''yards'', yards),
                                 (''touchdowns'', 1)]\<rparr>]\<rparr>,
                        [] @ [JStr ''K.Jones''])
              | _ \<Rightarrow> None)"
    by blast
  then have "touchdown_step (JObj []) (no_stats, []) ?td
   = Some (no_stats
       \<lparr>passing := [\<lparr>li_player_id = ''player_J.Smith'', li_name = ''J.Smith'',
            li_team = JStr ''Unknown Team'', li_team_abbrev = Upper ''Unk'',
            li_counts = [(''completions'', 1), (''attempts'', 1), (''yards'', 5),
              (''touchdowns'', 1), (''interceptions'', 0)]\<rparr>],
        receiving := [\<lparr>li_player_id = ''player_K.Jones'', li_name = ''K.Jones'',
            li_team = JStr ''Unknown Team'', li_team_abbrev = Upper ''Unk'',
            li_counts = [(''receptions'', 1), (''yards'', 5), (''touchdowns'', 1)]\<rparr>]\<rparr>,
      [JStr ''K.Jones''])"
    unfolding pl tm y ps by (simp add: no_stats_def replace_char_def)
  with ps show ?thesis by blast
qed

text \<open>With a blank after the passer's initial the dedicated pattern finds no passer, and
  the receiving line item is emitted all the same, alone.\<close>

theorem passing_touchdown_line_items_counterexample:
  "extract_passer_from_text ''(Gun) J. Smith pass to K. Jones for 5 yard touchdown'' = None
   \<and> touchdown_step (JObj []) (no_stats, [])
       (JObj [(''text'', JStr ''(Gun) J. Smith pass to K. Jones for 5 yard touchdown''),
              (''player'', JStr ''K. Jones'')])
     = Some (no_stats
         \<lparr>receiving := [\<lparr>li_player_id = ''player_K._Jones'', li_name = ''K. Jones'',
              li_team = JStr ''Unknown Team'', li_team_abbrev = Upper ''Unk'',
              li_counts = [(''receptions'', 1), (''yards'', 5), (''touchdowns'', 1)]\<rparr>]\<rparr>,
        [JStr ''K. Jones''])"
  by code_simp

end
